theory Spec2Isabelle
  imports Complex_Main "HOL-Library.AList" "HOL-Library.Char_ord" "HOL-Library.List_Lexorder"
begin

section \<open>Python values and built-ins used by \<open>rubric_helper.py\<close>\<close>

text \<open>
  The exceptions the modelled code can raise.  A function of the source that can raise
  returns \<open>exn + 'a\<close>: \<open>Inl e\<close> is the exception \<open>e\<close> leaving the function,
  \<open>Inr v\<close> is the returned value.
\<close>

datatype exn = TypeError | ValueError | OverflowError | AttributeError | KeyError
  | IndexError | OSError

subsection \<open>Strings\<close>

text \<open>
  A Python \<open>str\<close> is modelled as a \<open>string\<close>; a character is a code point below
  256.  \<open>is_space\<close> is the white space that \<open>int\<close> and \<open>float\<close> remove at both ends
  of a string: tab, line feed, vertical tab, form feed, carriage return and space, and
  of the code points from 128 the two with the Unicode white-space property, \<open>0x85\<close> and
  \<open>0xA0\<close>.  (The separators \<open>0x1C\<close> to \<open>0x1F\<close>, which \<open>str.strip\<close> removes, are not
  among them: \<open>int('\x1c5')\<close> is a \<open>ValueError\<close>.)
\<close>

definition is_space :: "char \<Rightarrow> bool" where
  "is_space c = ((of_char c :: nat) \<in> {9, 10, 11, 12, 13, 32, 133, 160})"

definition strip :: "string \<Rightarrow> string" where
  "strip s = rev (dropWhile is_space (rev (dropWhile is_space s)))"

definition is_digit :: "char \<Rightarrow> bool" where
  "is_digit c = (c \<in> set ''0123456789'')"

definition digit_val :: "char \<Rightarrow> int" where
  "digit_val c = (of_char c :: int) - 48"

definition digit_char :: "nat \<Rightarrow> char" where
  "digit_char d = ''0123456789'' ! d"

text \<open>\<open>s.split(sep)\<close> for a one-character separator: never empty, \<open>''''\<close> gives \<open>['''']\<close>.\<close>

fun split_on :: "char \<Rightarrow> string \<Rightarrow> string list" where
  "split_on sep [] = [[]]"
| "split_on sep (c # cs) =
     (if c = sep then [] # split_on sep cs
      else (case split_on sep cs of p # ps \<Rightarrow> (c # p) # ps | [] \<Rightarrow> [[c]]))"

text \<open>
  The longest prefix of the form \<open>digit (["_"] digit)*\<close> (Python's \<open>digitpart\<close>):
  its digits without the underscores, and the rest of the string.  An underscore belongs
  to the prefix only between two digits.
\<close>

fun span_digits :: "string \<Rightarrow> string \<times> string" where
  "span_digits [] = ([], [])"
| "span_digits [c] = (if is_digit c then ([c], []) else ([], [c]))"
| "span_digits (c # u # cs) =
     (if \<not> is_digit c then ([], c # u # cs)
      else if is_digit u then (case span_digits (u # cs) of (ds, r) \<Rightarrow> (c # ds, r))
      else if u = CHR ''_'' then
        (case cs of
           d # _ \<Rightarrow> if is_digit d then (case span_digits cs of (ds, r) \<Rightarrow> (c # ds, r))
                   else ([c], u # cs)
         | [] \<Rightarrow> ([c], u # cs))
      else ([c], u # cs))"

definition int_of_digits :: "string \<Rightarrow> int" where
  "int_of_digits ds = foldl (\<lambda>acc c. acc * 10 + digit_val c) 0 ds"

text \<open>
  The limit CPython puts on the number of digits in a conversion between \<open>int\<close> and
  \<open>str\<close> (\<open>sys.get_int_max_str_digits()\<close>, 4300 unless the interpreter is configured
  otherwise).
\<close>

definition max_str_digits :: nat where
  "max_str_digits = 4300"

text \<open>
  \<open>int(s)\<close> for a string, base 10: white space stripped, an optional sign, then one
  \<open>digitpart\<close> and nothing else; anything else is a \<open>ValueError\<close>, and so is a
  \<open>digitpart\<close> of more than \<open>max_str_digits\<close> digits (leading zeros count, underscores
  do not).
\<close>

definition digitpart :: "string \<Rightarrow> int option" where
  "digitpart s = (case span_digits s of (ds, r) \<Rightarrow>
     if ds \<noteq> [] \<and> r = [] then Some (int_of_digits ds) else None)"

definition py_int_str :: "string \<Rightarrow> exn + int" where
  "py_int_str s =
     (let t = strip s;
          (neg, body) = (case t of
                           c # r \<Rightarrow> if c = CHR ''-'' then (True, r)
                                   else if c = CHR ''+'' then (False, r) else (False, t)
                         | [] \<Rightarrow> (False, t))
      in case digitpart body of
           None \<Rightarrow> Inl ValueError
         | Some n \<Rightarrow>
             if max_str_digits < length (filter is_digit body) then Inl ValueError
             else Inr (if neg then - n else n))"

text \<open>
  \<open>str(n)\<close> for an integer: its decimal digits, with \<open>-\<close> before a negative one; a
  \<open>ValueError\<close> when there are more than \<open>max_str_digits\<close> digits.
\<close>

fun digits_of_nat :: "nat \<Rightarrow> string" where
  "digits_of_nat n =
     (if n < 10 then [digit_char n]
      else digits_of_nat (n div 10) @ [digit_char (n mod 10)])"

definition py_str_int :: "int \<Rightarrow> exn + string" where
  "py_str_int n =
     (let ds = digits_of_nat (nat \<bar>n\<bar>)
      in if max_str_digits < length ds then Inl ValueError
         else Inr (if n < 0 then CHR ''-'' # ds else ds))"

subsection \<open>Floats\<close>

text \<open>
  A Python \<open>float\<close> is an IEEE-754 double: a finite value (kept as the rational it
  denotes), an infinity or NaN.  \<open>round_double\<close> rounds a rational to the nearest double,
  ties to even, with gradual underflow below \<open>2^-1022\<close> and overflow to an infinity from
  \<open>2^1024\<close>; addition and the conversions from \<open>int\<close> and \<open>str\<close> are the exact result
  rounded once, as CPython computes them.  The sign of a zero is not kept.
\<close>

datatype pyfloat = Finite rat | PosInf | NegInf | NaN

fun bitlen :: "int \<Rightarrow> int" where
  "bitlen n = (if n \<le> 0 then 0 else 1 + bitlen (n div 2))"

definition pow2 :: "int \<Rightarrow> rat" where
  "pow2 e = (if 0 \<le> e then 2 ^ nat e else 1 / 2 ^ nat (- e))"

text \<open>
  For \<open>a > 0\<close>: the exponent \<open>e\<close> with \<open>2^e \<le> a < 2^(e+1)\<close>, from the number of bits
  of \<open>\<lfloor>a\<rfloor>\<close>, or of \<open>\<lfloor>1/a\<rfloor>\<close> when \<open>a < 1\<close>.
\<close>

definition ilog2 :: "rat \<Rightarrow> int" where
  "ilog2 a =
     (if 1 \<le> a then bitlen \<lfloor>a\<rfloor> - 1
      else let b = bitlen \<lfloor>1 / a\<rfloor> in if a = pow2 (1 - b) then 1 - b else - b)"

definition round_half_even :: "rat \<Rightarrow> int" where
  "round_half_even x =
     (let f = \<lfloor>x\<rfloor>; d = x - of_int f
      in if d < 1 / 2 then f else if 1 / 2 < d then f + 1
         else if even f then f else f + 1)"

definition round_double :: "rat \<Rightarrow> pyfloat" where
  "round_double q =
     (if q = 0 then Finite 0
      else let a = \<bar>q\<bar>;
               e = max (ilog2 a) (- 1022);
               u = pow2 (e - 52);
               v = of_int (round_half_even (a / u)) * u
           in if pow2 1024 \<le> v then (if 0 < q then PosInf else NegInf)
              else Finite (if 0 < q then v else - v))"

fun fadd :: "pyfloat \<Rightarrow> pyfloat \<Rightarrow> pyfloat" where
  "fadd (Finite a) (Finite b) = round_double (a + b)"
| "fadd NaN _ = NaN"
| "fadd _ NaN = NaN"
| "fadd PosInf NegInf = NaN"
| "fadd NegInf PosInf = NaN"
| "fadd PosInf _ = PosInf"
| "fadd _ PosInf = PosInf"
| "fadd NegInf _ = NegInf"
| "fadd _ NegInf = NegInf"

text \<open>\<open>a < b\<close> and \<open>a <= b\<close> on floats: false as soon as one side is NaN.\<close>

fun flt :: "pyfloat \<Rightarrow> pyfloat \<Rightarrow> bool" where
  "flt NaN _ = False"
| "flt _ NaN = False"
| "flt (Finite a) (Finite b) = (a < b)"
| "flt _ NegInf = False"
| "flt NegInf _ = True"
| "flt PosInf _ = False"
| "flt _ PosInf = True"

fun fle :: "pyfloat \<Rightarrow> pyfloat \<Rightarrow> bool" where
  "fle NaN _ = False"
| "fle _ NaN = False"
| "fle (Finite a) (Finite b) = (a \<le> b)"
| "fle NegInf _ = True"
| "fle _ NegInf = False"
| "fle _ PosInf = True"
| "fle PosInf _ = False"

text \<open>The literals \<open>0.99\<close> and \<open>1.01\<close> of the source, as the doubles they denote.\<close>

definition c099 :: pyfloat where
  "c099 = round_double (99 / 100)"

definition c101 :: pyfloat where
  "c101 = round_double (101 / 100)"

text \<open>
  \<open>float(s)\<close> for a string: white space stripped, an optional sign, then \<open>inf\<close>,
  \<open>infinity\<close> or \<open>nan\<close> in any case, or a decimal number
  \<open>([digitpart] "." digitpart | digitpart ["."]) [("e" | "E") ["+" | "-"] digitpart]\<close>;
  anything else is a \<open>ValueError\<close>.
\<close>

definition ci_eq :: "char \<Rightarrow> char \<Rightarrow> bool" where
  "ci_eq c l = (c = l \<or> (65 \<le> (of_char c :: nat) \<and> (of_char c :: nat) \<le> 90
                        \<and> (of_char c :: nat) + 32 = of_char l))"

definition ci_match :: "string \<Rightarrow> string \<Rightarrow> bool" where
  "ci_match s l = list_all2 ci_eq s l"

definition split_sign :: "string \<Rightarrow> bool \<times> string" where
  "split_sign t = (case t of
      c # r \<Rightarrow> if c = CHR ''-'' then (True, r)
              else if c = CHR ''+'' then (False, r) else (False, t)
    | [] \<Rightarrow> (False, t))"

definition decimal_value :: "string \<Rightarrow> string \<Rightarrow> int \<Rightarrow> rat" where
  "decimal_value ip fp ex =
     of_int (int_of_digits (ip @ fp)) * (if 0 \<le> ex - int (length fp)
        then 10 ^ nat (ex - int (length fp))
        else 1 / 10 ^ nat (int (length fp) - ex))"

definition float_body :: "string \<Rightarrow> pyfloat option" where
  "float_body t =
     (if ci_match t ''inf'' \<or> ci_match t ''infinity'' then Some PosInf
      else if ci_match t ''nan'' then Some NaN
      else case span_digits t of (ip, r1) \<Rightarrow>
        (case (case r1 of
                 c # r \<Rightarrow> if c = CHR ''.'' then span_digits r else ([], r1)
               | [] \<Rightarrow> ([], r1)) of (fp, r2) \<Rightarrow>
           if ip = [] \<and> fp = [] then None
           else (case r2 of
                   [] \<Rightarrow> Some (round_double (decimal_value ip fp 0))
                 | c # r3 \<Rightarrow>
                     if c = CHR ''e'' \<or> c = CHR ''E'' then
                       (case split_sign r3 of (neg, r4) \<Rightarrow>
                          (case digitpart r4 of
                             None \<Rightarrow> None
                           | Some n \<Rightarrow> Some (round_double (decimal_value ip fp
                                                (if neg then - n else n)))))
                     else None)))"

fun fneg :: "pyfloat \<Rightarrow> pyfloat" where
  "fneg (Finite q) = Finite (- q)"
| "fneg PosInf = NegInf"
| "fneg NegInf = PosInf"
| "fneg NaN = NaN"

definition py_float_str :: "string \<Rightarrow> exn + pyfloat" where
  "py_float_str s =
     (case split_sign (strip s) of (neg, body) \<Rightarrow>
        (case float_body body of
           None \<Rightarrow> Inl ValueError
         | Some f \<Rightarrow> Inr (if neg then fneg f else f)))"

text \<open>\<open>float(n)\<close> for an integer: the nearest double, \<open>OverflowError\<close> when there is none.\<close>

definition py_float_int :: "int \<Rightarrow> exn + pyfloat" where
  "py_float_int n = (case round_double (of_int n) of
      Finite q \<Rightarrow> Inr (Finite q)
    | _ \<Rightarrow> Inl OverflowError)"

subsection \<open>Values\<close>

text \<open>
  The values \<open>json.load\<close> produces, which are the values a rubric is made of.  A
  \<open>dict\<close> has string keys and keeps the order of insertion: an association list, where
  the first binding of a key is the one that counts.
\<close>

datatype pyval = PNone | PBool bool | PInt int | PFloat pyfloat | PStr string
  | PList "pyval list" | PDict "(string \<times> pyval) list"

fun py_float :: "pyval \<Rightarrow> exn + pyfloat" where
  "py_float (PFloat f) = Inr f"
| "py_float (PInt n) = py_float_int n"
| "py_float (PBool b) = Inr (Finite (if b then 1 else 0))"
| "py_float (PStr s) = py_float_str s"
| "py_float _ = Inl TypeError"

text \<open>\<open>int(v)\<close>: a float is truncated towards zero; NaN and the infinities raise.\<close>

fun py_int :: "pyval \<Rightarrow> exn + int" where
  "py_int (PInt n) = Inr n"
| "py_int (PBool b) = Inr (if b then 1 else 0)"
| "py_int (PFloat (Finite q)) = Inr (if 0 \<le> q then \<lfloor>q\<rfloor> else \<lceil>q\<rceil>)"
| "py_int (PFloat NaN) = Inl ValueError"
| "py_int (PFloat _) = Inl OverflowError"
| "py_int (PStr s) = py_int_str s"
| "py_int _ = Inl TypeError"

fun starts_with :: "string \<Rightarrow> string \<Rightarrow> bool" where
  "starts_with [] s = True"
| "starts_with (a # k) [] = False"
| "starts_with (a # k) (b # s) = (a = b \<and> starts_with k s)"

fun contains_str :: "string \<Rightarrow> string \<Rightarrow> bool" where
  "contains_str k [] = (k = [])"
| "contains_str k (c # s) = (starts_with k (c # s) \<or> contains_str k s)"

text \<open>
  \<open>k in obj\<close> for a string \<open>k\<close>: a key of a dict, an element of a list, a substring
  of a string; \<open>TypeError\<close> on anything else.
\<close>

fun py_contains :: "pyval \<Rightarrow> string \<Rightarrow> exn + bool" where
  "py_contains (PDict d) k = Inr (k \<in> set (map fst d))"
| "py_contains (PList xs) k = Inr (PStr k \<in> set xs)"
| "py_contains (PStr s) k = Inr (contains_str k s)"
| "py_contains _ k = Inl TypeError"

text \<open>\<open>all(k in obj for k in ks)\<close>; the outcome does not depend on the order of \<open>ks\<close>.\<close>

fun all_in :: "pyval \<Rightarrow> string list \<Rightarrow> exn + bool" where
  "all_in obj [] = Inr True"
| "all_in obj (k # ks) =
     (case py_contains obj k of
        Inl e \<Rightarrow> Inl e
      | Inr b \<Rightarrow> if b then all_in obj ks else Inr False)"

text \<open>\<open>obj[k]\<close> for a string \<open>k\<close>, and \<open>obj.keys()\<close>.\<close>

fun py_getitem :: "pyval \<Rightarrow> string \<Rightarrow> exn + pyval" where
  "py_getitem (PDict d) k = (case map_of d k of None \<Rightarrow> Inl KeyError | Some v \<Rightarrow> Inr v)"
| "py_getitem _ k = Inl TypeError"

fun py_keys :: "pyval \<Rightarrow> exn + string list" where
  "py_keys (PDict d) = Inr (map fst d)"
| "py_keys _ = Inl AttributeError"

text \<open>\<open>required - set(obj.keys())\<close>, listed in the order of \<open>required\<close>.\<close>

definition missing_from :: "string list \<Rightarrow> string list \<Rightarrow> string list" where
  "missing_from required ks = filter (\<lambda>k. k \<notin> set ks) required"

text \<open>
  \<open>a == b\<close> where one side is a number, a string or \<open>None\<close>: \<open>bool\<close>, \<open>int\<close> and
  \<open>float\<close> compare by their exact numeric value (\<open>True == 1 == 1.0\<close>), NaN equals
  nothing.  The source only compares with an \<open>int\<close> or a \<open>str\<close> on one side.
\<close>

fun num_val :: "pyval \<Rightarrow> pyfloat option" where
  "num_val (PBool b) = Some (Finite (if b then 1 else 0))"
| "num_val (PInt n) = Some (Finite (of_int n))"
| "num_val (PFloat f) = Some f"
| "num_val _ = None"

definition py_eq :: "pyval \<Rightarrow> pyval \<Rightarrow> bool" where
  "py_eq a b = (case (num_val a, num_val b) of
      (Some x, Some y) \<Rightarrow> x = y \<and> x \<noteq> NaN
    | (None, None) \<Rightarrow> a = b
    | _ \<Rightarrow> False)"

text \<open>
  \<open>x in seen\<close> for a \<open>set\<close>: a list or dict is unhashable (\<open>TypeError\<close>); otherwise an
  element that is the same object or equal.  \<open>json.load\<close> gives every \<open>NaN\<close> of a
  document the same object, so a NaN is found by identity.
\<close>

fun hashable :: "pyval \<Rightarrow> bool" where
  "hashable (PList _) = False"
| "hashable (PDict _) = False"
| "hashable _ = True"

definition set_contains :: "pyval list \<Rightarrow> pyval \<Rightarrow> exn + bool" where
  "set_contains seen x =
     (if hashable x then Inr (list_ex (\<lambda>y. y = x \<or> py_eq y x) seen) else Inl TypeError)"

section \<open>\<open>validate_rubric\<close>\<close>

text \<open>
  The reasons \<open>validate_rubric\<close> returns, one per message of the source, with the
  values the message interpolates (how Python prints a value is not modelled):
  \<^item> \<open>NoFormat\<close>: Rubric must have either 'categories' (new format) or 'criteria' (old format)
  \<^item> \<open>MissingKeys\<close>: Missing required keys: ...
  \<^item> \<open>CategoriesNotList\<close>: categories must be a non-empty list
  \<^item> \<open>CatMissingFields i\<close>: Category i missing required fields: ...
  \<^item> \<open>DupCategoryId\<close>: Duplicate category ID: ...
  \<^item> \<open>CatWeightRange\<close>: Category '...' weight must be between 0 and 1
  \<^item> \<open>CatWeightNotNumber\<close>: Category '...' weight must be a number
  \<^item> \<open>CatMaxPointsNotPositive\<close>: Category '...' max_points must be positive
  \<^item> \<open>CatMaxPointsNotInt\<close>: Category '...' max_points must be a positive integer
  \<^item> \<open>CatCriteriaNotList\<close>: Category '...' criteria must be a non-empty list
  \<^item> \<open>CritMissingFields c j\<close>: Category 'c' criterion j missing required fields: ...
  \<^item> \<open>DupCriterionInCat c k\<close>: Duplicate criterion ID in category 'c': k
  \<^item> \<open>CritMaxPointsNotPositive\<close>: Criterion '...' max_points must be positive
  \<^item> \<open>CritMaxPointsNotInt\<close>: Criterion '...' max_points must be a positive integer
  \<^item> \<open>SumMismatch c m p\<close>: Category 'c' max_points (m) doesn't match sum of criteria points (p)
  \<^item> \<open>CatWeightSum t\<close>: Category weights must sum to 1.0 (current sum: t)
  \<^item> \<open>CriteriaNotList\<close>: criteria must be a non-empty list
  \<^item> \<open>CriterionMissingFields i\<close>: Criterion i missing required fields: ...
  \<^item> \<open>DupCriterionId\<close>: Duplicate criterion ID: ...
  \<^item> \<open>CritWeightRange\<close>: Criterion '...' weight must be between 0 and 1
  \<^item> \<open>CritWeightNotNumber\<close>: Criterion '...' weight must be a number
  \<^item> \<open>CritWeightSum t\<close>: Criterion weights must sum to 1.0 (current sum: t)
  \<^item> \<open>ScaleNotDict\<close>, \<open>ScaleKeys\<close>, \<open>ScaleOrder\<close>, \<open>ScaleNotNumbers\<close>: scale must be a
    dict; must have 'min' and 'max' keys; min must be less than max; min and max must
    be numbers
  \<^item> \<open>ThresholdsNotDict\<close>, \<open>ThresholdsKeys\<close>, \<open>ThresholdsOrder\<close>,
    \<open>ThresholdsNotNumbers\<close>: thresholds must be a dict; must have 'pass' and 'revise'
    keys; revise threshold must be less than pass threshold; thresholds must be numbers
\<close>

datatype verr =
    NoFormat
  | MissingKeys "string list"
  | CategoriesNotList
  | CatMissingFields nat "string list"
  | DupCategoryId pyval
  | CatWeightRange pyval
  | CatWeightNotNumber pyval
  | CatMaxPointsNotPositive pyval
  | CatMaxPointsNotInt pyval
  | CatCriteriaNotList pyval
  | CritMissingFields pyval nat "string list"
  | DupCriterionInCat pyval pyval
  | CritMaxPointsNotPositive pyval
  | CritMaxPointsNotInt pyval
  | SumMismatch pyval pyval int
  | CatWeightSum pyfloat
  | CriteriaNotList
  | CriterionMissingFields nat "string list"
  | DupCriterionId pyval
  | CritWeightRange pyval
  | CritWeightNotNumber pyval
  | CritWeightSum pyfloat
  | ScaleNotDict | ScaleKeys | ScaleOrder | ScaleNotNumbers
  | ThresholdsNotDict | ThresholdsKeys | ThresholdsOrder | ThresholdsNotNumbers

text \<open>
  A piece of the function body either raises, executes \<open>return False, reason\<close>, or
  goes on with a value.
\<close>

datatype 'a step = Raise exn | Fail verr | Ok 'a

fun step_bind :: "'a step \<Rightarrow> ('a \<Rightarrow> 'b step) \<Rightarrow> 'b step" where
  "step_bind (Ok x) f = f x"
| "step_bind (Fail m) f = Fail m"
| "step_bind (Raise e) f = Raise e"

fun of_res :: "exn + 'a \<Rightarrow> 'a step" where
  "of_res (Inl e) = Raise e"
| "of_res (Inr x) = Ok x"

text \<open>\<open>try: body except (TypeError, ValueError): return False, reason\<close>\<close>

fun catch_type_value :: "'a step \<Rightarrow> verr \<Rightarrow> 'a step" where
  "catch_type_value (Raise e) m = (if e = TypeError \<or> e = ValueError then Fail m else Raise e)"
| "catch_type_value r m = r"

text \<open>
  The body of the loop over the criteria of one category (source lines 115 to 134); the
  loop state is \<open>(seen_crit_ids, category_points)\<close>.
\<close>

definition check_criterion ::
  "pyval \<Rightarrow> nat \<Rightarrow> pyval \<Rightarrow> pyval list \<times> int \<Rightarrow> (pyval list \<times> int) step" where
  "check_criterion cat_id j criterion st =
     (case st of (seen_crit_ids, category_points) \<Rightarrow>
      let required_crit_fields = [''criterion_id'', ''label'', ''desc'', ''max_points''] in
      step_bind (of_res (all_in criterion required_crit_fields)) (\<lambda>present.
      if \<not> present then
        step_bind (of_res (py_keys criterion)) (\<lambda>ks.
        Fail (CritMissingFields cat_id j (missing_from required_crit_fields ks)))
      else
      step_bind (of_res (py_getitem criterion ''criterion_id'')) (\<lambda>crit_id.
      step_bind (of_res (set_contains seen_crit_ids crit_id)) (\<lambda>dup.
      if dup then Fail (DupCriterionInCat cat_id crit_id)
      else
      step_bind
        (catch_type_value
          (step_bind (of_res (py_getitem criterion ''max_points'')) (\<lambda>mp.
           step_bind (of_res (py_int mp)) (\<lambda>crit_max_points.
           if crit_max_points \<le> 0 then Fail (CritMaxPointsNotPositive crit_id)
           else Ok (category_points + crit_max_points))))
          (CritMaxPointsNotInt crit_id))
        (\<lambda>category_points'. Ok (crit_id # seen_crit_ids, category_points'))))))"

fun criteria_loop ::
  "pyval \<Rightarrow> nat \<Rightarrow> pyval list \<Rightarrow> pyval list \<times> int \<Rightarrow> (pyval list \<times> int) step" where
  "criteria_loop cat_id j [] st = Ok st"
| "criteria_loop cat_id j (criterion # rest) st =
     step_bind (check_criterion cat_id j criterion st) (criteria_loop cat_id (Suc j) rest)"

text \<open>
  The body of the loop over the categories (source lines 80 to 138); the loop state is
  \<open>(seen_cat_ids, total_weight)\<close>.
\<close>

definition check_category ::
  "nat \<Rightarrow> pyval \<Rightarrow> pyval list \<times> pyfloat \<Rightarrow> (pyval list \<times> pyfloat) step" where
  "check_category i category st =
     (case st of (seen_cat_ids, total_weight) \<Rightarrow>
      let required_fields = [''category_id'', ''label'', ''weight'', ''max_points'', ''criteria''] in
      step_bind (of_res (all_in category required_fields)) (\<lambda>present.
      if \<not> present then
        step_bind (of_res (py_keys category)) (\<lambda>ks.
        Fail (CatMissingFields i (missing_from required_fields ks)))
      else
      step_bind (of_res (py_getitem category ''category_id'')) (\<lambda>cat_id.
      step_bind (of_res (set_contains seen_cat_ids cat_id)) (\<lambda>dup.
      if dup then Fail (DupCategoryId cat_id)
      else
      step_bind
        (catch_type_value
          (step_bind (of_res (py_getitem category ''weight'')) (\<lambda>w.
           step_bind (of_res (py_float w)) (\<lambda>weight.
           if flt weight (Finite 0) \<or> flt (Finite 1) weight then Fail (CatWeightRange cat_id)
           else Ok (fadd total_weight weight))))
          (CatWeightNotNumber cat_id))
        (\<lambda>total_weight'.
      step_bind
        (catch_type_value
          (step_bind (of_res (py_getitem category ''max_points'')) (\<lambda>mp.
           step_bind (of_res (py_int mp)) (\<lambda>max_points.
           if max_points \<le> 0 then Fail (CatMaxPointsNotPositive cat_id)
           else Ok max_points)))
          (CatMaxPointsNotInt cat_id))
        (\<lambda>max_points.
      step_bind (of_res (py_getitem category ''criteria'')) (\<lambda>criteria.
      case criteria of
        PList cs \<Rightarrow>
          if cs = [] then Fail (CatCriteriaNotList cat_id)
          else
          step_bind (criteria_loop cat_id 0 cs ([], 0)) (\<lambda>(seen_crit_ids, category_points).
          step_bind (of_res (py_getitem category ''max_points'')) (\<lambda>declared.
          if \<not> py_eq (PInt category_points) declared
          then Fail (SumMismatch cat_id declared category_points)
          else Ok (cat_id # seen_cat_ids, total_weight')))
      | _ \<Rightarrow> Fail (CatCriteriaNotList cat_id))))))))"

fun categories_loop ::
  "nat \<Rightarrow> pyval list \<Rightarrow> pyval list \<times> pyfloat \<Rightarrow> (pyval list \<times> pyfloat) step" where
  "categories_loop i [] st = Ok st"
| "categories_loop i (category # rest) st =
     step_bind (check_category i category st) (categories_loop (Suc i) rest)"

text \<open>The hierarchical branch (source lines 67 to 142).\<close>

definition check_new_format :: "pyval \<Rightarrow> unit step" where
  "check_new_format rubric =
     (let required_keys = [''categories'', ''scale'', ''overall_method'', ''thresholds''] in
      step_bind (of_res (all_in rubric required_keys)) (\<lambda>present.
      if \<not> present then
        step_bind (of_res (py_keys rubric)) (\<lambda>ks.
        Fail (MissingKeys (missing_from required_keys ks)))
      else
      step_bind (of_res (py_getitem rubric ''categories'')) (\<lambda>categories.
      case categories of
        PList cs \<Rightarrow>
          if cs = [] then Fail CategoriesNotList
          else
          step_bind (categories_loop 0 cs ([], Finite 0)) (\<lambda>(seen_cat_ids, total_weight).
          if \<not> (fle c099 total_weight \<and> fle total_weight c101)
          then Fail (CatWeightSum total_weight)
          else Ok ())
      | _ \<Rightarrow> Fail CategoriesNotList)))"

text \<open>
  The body of the loop over the criteria of a flat rubric (source lines 157 to 176); the
  loop state is \<open>(seen_ids, total_weight)\<close>.
\<close>

definition check_flat_criterion ::
  "nat \<Rightarrow> pyval \<Rightarrow> pyval list \<times> pyfloat \<Rightarrow> (pyval list \<times> pyfloat) step" where
  "check_flat_criterion i criterion st =
     (case st of (seen_ids, total_weight) \<Rightarrow>
      let required_fields = [''id'', ''label'', ''desc'', ''weight''] in
      step_bind (of_res (all_in criterion required_fields)) (\<lambda>present.
      if \<not> present then
        step_bind (of_res (py_keys criterion)) (\<lambda>ks.
        Fail (CriterionMissingFields i (missing_from required_fields ks)))
      else
      step_bind (of_res (py_getitem criterion ''id'')) (\<lambda>crit_id.
      step_bind (of_res (set_contains seen_ids crit_id)) (\<lambda>dup.
      if dup then Fail (DupCriterionId crit_id)
      else
      step_bind
        (catch_type_value
          (step_bind (of_res (py_getitem criterion ''weight'')) (\<lambda>w.
           step_bind (of_res (py_float w)) (\<lambda>weight.
           if flt weight (Finite 0) \<or> flt (Finite 1) weight then Fail (CritWeightRange crit_id)
           else Ok (fadd total_weight weight))))
          (CritWeightNotNumber crit_id))
        (\<lambda>total_weight'. Ok (crit_id # seen_ids, total_weight'))))))"

fun flat_criteria_loop ::
  "nat \<Rightarrow> pyval list \<Rightarrow> pyval list \<times> pyfloat \<Rightarrow> (pyval list \<times> pyfloat) step" where
  "flat_criteria_loop i [] st = Ok st"
| "flat_criteria_loop i (criterion # rest) st =
     step_bind (check_flat_criterion i criterion st) (flat_criteria_loop (Suc i) rest)"

text \<open>The flat branch (source lines 144 to 180).\<close>

definition check_old_format :: "pyval \<Rightarrow> unit step" where
  "check_old_format rubric =
     (let required_keys = [''criteria'', ''scale'', ''overall_method'', ''thresholds''] in
      step_bind (of_res (all_in rubric required_keys)) (\<lambda>present.
      if \<not> present then
        step_bind (of_res (py_keys rubric)) (\<lambda>ks.
        Fail (MissingKeys (missing_from required_keys ks)))
      else
      step_bind (of_res (py_getitem rubric ''criteria'')) (\<lambda>criteria.
      case criteria of
        PList cs \<Rightarrow>
          if cs = [] then Fail CriteriaNotList
          else
          step_bind (flat_criteria_loop 0 cs ([], Finite 0)) (\<lambda>(seen_ids, total_weight).
          if \<not> (fle c099 total_weight \<and> fle total_weight c101)
          then Fail (CritWeightSum total_weight)
          else Ok ())
      | _ \<Rightarrow> Fail CriteriaNotList)))"

text \<open>The checks common to both formats (source lines 182 to 206).\<close>

fun is_dict :: "pyval \<Rightarrow> bool" where
  "is_dict (PDict _) = True"
| "is_dict _ = False"

definition check_scale :: "pyval \<Rightarrow> unit step" where
  "check_scale rubric =
     step_bind (of_res (py_getitem rubric ''scale'')) (\<lambda>scale.
     if \<not> is_dict scale then Fail ScaleNotDict
     else
     step_bind (of_res (py_contains scale ''min'')) (\<lambda>has_min.
     step_bind (if \<not> has_min then Ok False else of_res (py_contains scale ''max'')) (\<lambda>has_both.
     if \<not> has_both then Fail ScaleKeys
     else
     catch_type_value
       (step_bind (of_res (py_getitem scale ''min'')) (\<lambda>lo.
        step_bind (of_res (py_float lo)) (\<lambda>min_val.
        step_bind (of_res (py_getitem scale ''max'')) (\<lambda>hi.
        step_bind (of_res (py_float hi)) (\<lambda>max_val.
        if fle max_val min_val then Fail ScaleOrder else Ok ())))))
       ScaleNotNumbers)))"

definition check_thresholds :: "pyval \<Rightarrow> unit step" where
  "check_thresholds rubric =
     step_bind (of_res (py_getitem rubric ''thresholds'')) (\<lambda>thresholds.
     if \<not> is_dict thresholds then Fail ThresholdsNotDict
     else
     step_bind (of_res (py_contains thresholds ''pass'')) (\<lambda>has_pass.
     step_bind (if \<not> has_pass then Ok False else of_res (py_contains thresholds ''revise''))
       (\<lambda>has_both.
     if \<not> has_both then Fail ThresholdsKeys
     else
     catch_type_value
       (step_bind (of_res (py_getitem thresholds ''pass'')) (\<lambda>p.
        step_bind (of_res (py_float p)) (\<lambda>pass_threshold.
        step_bind (of_res (py_getitem thresholds ''revise'')) (\<lambda>r.
        step_bind (of_res (py_float r)) (\<lambda>revise_threshold.
        if fle pass_threshold revise_threshold then Fail ThresholdsOrder else Ok ())))))
       ThresholdsNotNumbers)))"

definition validate_steps :: "pyval \<Rightarrow> unit step" where
  "validate_steps rubric =
     step_bind (of_res (py_contains rubric ''categories'')) (\<lambda>is_new_format.
     step_bind (of_res (py_contains rubric ''criteria'')) (\<lambda>is_old_format.
     if \<not> is_new_format \<and> \<not> is_old_format then Fail NoFormat
     else
     step_bind (if is_new_format then check_new_format rubric else check_old_format rubric)
       (\<lambda>_.
     step_bind (check_scale rubric) (\<lambda>_.
     check_thresholds rubric))))"

text \<open>
  \<open>validate_rubric\<close>: \<open>Inr (True, None)\<close> and \<open>Inr (False, Some reason)\<close> are the two
  shapes of the returned pair, \<open>Inl e\<close> is an exception that leaves the function.
\<close>

definition validate_rubric :: "pyval \<Rightarrow> exn + bool \<times> verr option" where
  "validate_rubric rubric =
     (case validate_steps rubric of
        Raise e \<Rightarrow> Inl e
      | Fail m \<Rightarrow> Inr (False, Some m)
      | Ok _ \<Rightarrow> Inr (True, None))"

subsection \<open>What the claims about \<open>validate_rubric\<close> speak of\<close>

text \<open>
  The points of a criterion as the code reads them, \<open>int(criterion["max_points"])\<close>, and
  their sum over the criteria of a category; the weight of a category or flat criterion,
  \<open>float(item["weight"])\<close>, and the weights of a list of them.
\<close>

definition criterion_points :: "pyval \<Rightarrow> exn + int" where
  "criterion_points criterion =
     (case py_getitem criterion ''max_points'' of Inl e \<Rightarrow> Inl e | Inr v \<Rightarrow> py_int v)"

fun sum_points :: "pyval list \<Rightarrow> int option" where
  "sum_points [] = Some 0"
| "sum_points (k # ks) =
     (case criterion_points k of
        Inl e \<Rightarrow> None
      | Inr n \<Rightarrow> (case sum_points ks of None \<Rightarrow> None | Some s \<Rightarrow> Some (n + s)))"

definition item_weight :: "pyval \<Rightarrow> exn + pyfloat" where
  "item_weight item =
     (case py_getitem item ''weight'' of Inl e \<Rightarrow> Inl e | Inr v \<Rightarrow> py_float v)"

fun weights_of :: "pyval list \<Rightarrow> pyfloat list option" where
  "weights_of [] = Some []"
| "weights_of (c # cs) =
     (case item_weight c of
        Inl e \<Rightarrow> None
      | Inr w \<Rightarrow> (case weights_of cs of None \<Rightarrow> None | Some ws \<Rightarrow> Some (w # ws)))"

text \<open>\<open>total_weight\<close> after the loop: the weights added one by one to \<open>0.0\<close>.\<close>

definition total_weight :: "pyfloat list \<Rightarrow> pyfloat" where
  "total_weight ws = foldl fadd (Finite 0) ws"

text \<open>Rubrics for the examples: one category or criterion each, and the common keys.\<close>

definition mk_criterion :: "string \<Rightarrow> pyval \<Rightarrow> pyval" where
  "mk_criterion crit_id max_points =
     PDict [(''criterion_id'', PStr crit_id), (''label'', PStr ''Label''),
            (''desc'', PStr ''Description''), (''max_points'', max_points)]"

definition mk_category :: "string \<Rightarrow> pyval \<Rightarrow> pyval \<Rightarrow> pyval list \<Rightarrow> pyval" where
  "mk_category cat_id weight max_points criteria =
     PDict [(''category_id'', PStr cat_id), (''label'', PStr ''Label''), (''weight'', weight),
            (''max_points'', max_points), (''criteria'', PList criteria)]"

definition common_keys :: "(string \<times> pyval) list" where
  "common_keys =
     [(''scale'', PDict [(''min'', PInt 0), (''max'', PInt 1)]),
      (''overall_method'', PStr ''total_points''),
      (''thresholds'', PDict [(''pass'', PInt 1), (''revise'', PInt 0)])]"

definition mk_rubric :: "pyval list \<Rightarrow> pyval" where
  "mk_rubric categories = PDict ((''categories'', PList categories) # common_keys)"

text \<open>A well-formed hierarchical rubric, and a well-formed flat one.\<close>

definition valid_rubric :: pyval where
  "valid_rubric =
     mk_rubric [mk_category ''content'' (PFloat (Finite (1 / 2))) (PInt 10)
                  [mk_criterion ''clarity'' (PInt 10)],
                mk_category ''delivery'' (PFloat (Finite (1 / 2))) (PInt 5)
                  [mk_criterion ''pace'' (PInt 2), mk_criterion ''voice'' (PInt 3)]]"

definition valid_flat_rubric :: pyval where
  "valid_flat_rubric =
     PDict ((''criteria'',
             PList [PDict [(''id'', PStr ''clarity''), (''label'', PStr ''Label''),
                           (''desc'', PStr ''Description''), (''weight'', PInt 1)]])
            # common_keys)"

text \<open>A well-formed hierarchical rubric that also has a \<open>criteria\<close> key.\<close>

definition both_keys_rubric :: "(string \<times> pyval) list" where
  "both_keys_rubric =
     (''categories'', PList [mk_category ''content'' (PInt 1) (PInt 10)
                               [mk_criterion ''clarity'' (PInt 10)]])
     # (''criteria'', PList []) # common_keys"

text \<open>A category that declares 10 points over criteria of 5 and 3 points.\<close>

definition mismatch_rubric :: pyval where
  "mismatch_rubric =
     mk_rubric [mk_category ''content'' (PInt 1) (PInt 10)
                  [mk_criterion ''clarity'' (PInt 5), mk_criterion ''depth'' (PInt 3)]]"

text \<open>
  A category that declares 2 points over one criterion of 2.5 points, and the sum of
  the \<open>max_points\<close> of a list of criteria as the numbers they are, without \<open>int\<close>:
  defined when each is an \<open>int\<close> or a finite \<open>float\<close>.
\<close>

definition truncated_rubric :: pyval where
  "truncated_rubric =
     mk_rubric [mk_category ''content'' (PInt 1) (PInt 2)
                  [mk_criterion ''clarity'' (PFloat (Finite (5 / 2)))]]"

fun exact_points :: "pyval \<Rightarrow> rat option" where
  "exact_points (PInt n) = Some (of_int n)"
| "exact_points (PFloat (Finite q)) = Some q"
| "exact_points _ = None"

fun exact_sum_points :: "pyval list \<Rightarrow> rat option" where
  "exact_sum_points [] = Some 0"
| "exact_sum_points (k # ks) =
     (case py_getitem k ''max_points'' of
        Inl e \<Rightarrow> None
      | Inr v \<Rightarrow>
          (case exact_points v of
             None \<Rightarrow> None
           | Some q \<Rightarrow> (case exact_sum_points ks of None \<Rightarrow> None | Some t \<Rightarrow> Some (q + t))))"

text \<open>
  Two categories of weights \<open>0.5\<close> and \<open>0.4\<close>; the second is the double that the
  literal \<open>0.4\<close> denotes.
\<close>

definition double_0_4 :: pyfloat where
  "double_0_4 = Finite (3602879701896397 / 9007199254740992)"

definition underweight_rubric :: pyval where
  "underweight_rubric =
     mk_rubric [mk_category ''content'' (PFloat (Finite (1 / 2))) (PInt 10)
                  [mk_criterion ''clarity'' (PInt 10)],
                mk_category ''delivery'' (PFloat double_0_4) (PInt 5)
                  [mk_criterion ''pace'' (PInt 5)]]"

text \<open>
  Dictionaries on which \<open>validate_rubric\<close> raises: a category that is not a dict, a
  category id that is a list, and a \<open>max_points\<close> that is the float infinity (which
  \<open>json.load\<close> reads from \<open>Infinity\<close>).
\<close>

definition bad_category_rubric :: pyval where
  "bad_category_rubric = mk_rubric [PInt 5]"

definition list_id_rubric :: pyval where
  "list_id_rubric =
     mk_rubric [PDict [(''category_id'', PList []), (''label'', PStr ''Label''),
                       (''weight'', PInt 1), (''max_points'', PInt 10),
                       (''criteria'', PList [mk_criterion ''clarity'' (PInt 10)])]]"

definition infinite_points_rubric :: pyval where
  "infinite_points_rubric =
     mk_rubric [mk_category ''content'' (PInt 1) (PFloat PosInf)
                  [mk_criterion ''clarity'' (PInt 10)]]"

section \<open>\<open>increment_version\<close>\<close>

text \<open>
  \<^verbatim>\<open>
  def increment_version(current_version: str) -> str:
      try:
          parts = current_version.split('.')
          if len(parts) >= 2:
              major = parts[0]
              minor = str(int(parts[1]) + 1)
              return f"{major}.{minor}"
          else:
              return f"{current_version}.1"
      except (ValueError, IndexError):
          return f"{current_version}.1"
  \<close>
  \<open>increment_version_body\<close> is the \<open>try\<close> block, \<open>increment_version\<close> adds the handler.
\<close>

definition increment_version_body :: "string \<Rightarrow> exn + string" where
  "increment_version_body current_version =
     (let parts = split_on CHR ''.'' current_version in
      if length parts \<ge> 2 then
        (case py_int_str (parts ! 1) of
           Inl e \<Rightarrow> Inl e
         | Inr n \<Rightarrow>
             (case py_str_int (n + 1) of
                Inl e \<Rightarrow> Inl e
              | Inr minor \<Rightarrow> Inr (parts ! 0 @ ''.'' @ minor)))
      else Inr (current_version @ ''.1''))"

definition increment_version :: "string \<Rightarrow> exn + string" where
  "increment_version current_version =
     (case increment_version_body current_version of
        Inl e \<Rightarrow> if e = ValueError \<or> e = IndexError then Inr (current_version @ ''.1'')
                 else Inl e
      | Inr r \<Rightarrow> Inr r)"

section \<open>The rubric store\<close>

subsection \<open>Files and directories\<close>

text \<open>
  The store is the directory \<open>rubrics\<close> beside the script and its subdirectory
  \<open>versions\<close>.  A file holds a JSON document, kept as the value \<open>json.load\<close> reads from
  it (which is the value \<open>json.dump\<close> wrote), or text that is not JSON.  Input and output
  fail where permissions say so: a file may be unreadable or read-only, a directory may
  refuse new entries.  A directory lists its entries in its own order, which is the order
  \<open>glob\<close> yields them in.

  The two directories hold files only, under names that are single path components.
  \<open>valid_name\<close> is what the file system takes as such a name: not empty, not \<open>.\<close> or
  \<open>..\<close>, without \<open>/\<close> and without the character 0, and of at most 255 bytes in UTF-8
  (the limit of the usual file systems).  A name with a \<open>/\<close> is a path through another
  directory; the store has none to offer, so that opening such a path for writing fails
  (\<open>FileNotFoundError\<close>), as it does for a name that is too long (\<open>OSError\<close>) and for one
  with the character 0 (\<open>ValueError\<close>).  Paths that lead back into the store or out of
  it (through \<open>.\<close>, \<open>..\<close>, \<open>versions\<close> or from the root) are not followed.
\<close>

datatype file_text = Json pyval | NotJson

record file_node =
  text_of :: file_text
  readable :: bool
  writable :: bool

record directory =
  entries :: "(string \<times> file_node) list"
  creatable :: bool

text \<open>What the functions print.\<close>

datatype printed =
    BackupCreated string
  | WarnNotArchived
  | WarnNoBackup

record store =
  rubrics :: "directory option"
  versions :: "directory option"
  parent_writable :: bool
  stdout :: "printed list"

definition new_directory :: directory where
  "new_directory = \<lparr>entries = [], creatable = True\<rparr>"

definition new_file :: "file_text \<Rightarrow> file_node" where
  "new_file t = \<lparr>text_of = t, readable = True, writable = True\<rparr>"

definition dir_lookup :: "directory option \<Rightarrow> string \<Rightarrow> file_node option" where
  "dir_lookup d name = (case d of None \<Rightarrow> None | Some dr \<Rightarrow> map_of (entries dr) name)"

text \<open>\<open>path.exists()\<close>\<close>

definition path_exists :: "directory option \<Rightarrow> string \<Rightarrow> bool" where
  "path_exists d name = (dir_lookup d name \<noteq> None)"

text \<open>\<open>open(path, 'r')\<close> and reading the text.\<close>

definition open_read :: "directory option \<Rightarrow> string \<Rightarrow> exn + file_text" where
  "open_read d name =
     (case dir_lookup d name of
        None \<Rightarrow> Inl OSError
      | Some f \<Rightarrow> if readable f then Inr (text_of f) else Inl OSError)"

text \<open>
  \<open>with open(path, 'r') as f: json.load(f)\<close>; \<open>JSONDecodeError\<close> is a \<open>ValueError\<close>.
\<close>

definition json_load :: "directory option \<Rightarrow> string \<Rightarrow> exn + pyval" where
  "json_load d name =
     (case open_read d name of
        Inl e \<Rightarrow> Inl e
      | Inr t \<Rightarrow> (case t of Json v \<Rightarrow> Inr v | NotJson \<Rightarrow> Inl ValueError))"

definition utf8_length :: "string \<Rightarrow> nat" where
  "utf8_length n = length n + length (filter (\<lambda>c. 128 \<le> (of_char c :: nat)) n)"

definition has_nul :: "string \<Rightarrow> bool" where
  "has_nul n = list_ex (\<lambda>c. (of_char c :: nat) = 0) n"

definition valid_name :: "string \<Rightarrow> bool" where
  "valid_name n \<longleftrightarrow>
     n \<noteq> [] \<and> n \<noteq> ''.'' \<and> n \<noteq> ''..'' \<and> CHR ''/'' \<notin> set n
     \<and> \<not> has_nul n \<and> utf8_length n \<le> 255"

text \<open>
  \<open>open(path, 'w')\<close> and writing the text: an existing file keeps its place and its
  permissions, a new one is added at the end.  A name that is not a valid one is
  refused.
\<close>

definition open_write :: "directory option \<Rightarrow> string \<Rightarrow> file_text \<Rightarrow> exn + directory option" where
  "open_write d name t =
     (if has_nul name then Inl ValueError
      else if \<not> valid_name name then Inl OSError
      else case d of
        None \<Rightarrow> Inl OSError
      | Some dr \<Rightarrow>
          (case map_of (entries dr) name of
             Some f \<Rightarrow>
               if writable f
               then Inr (Some (dr\<lparr>entries := AList.update name (f\<lparr>text_of := t\<rparr>) (entries dr)\<rparr>))
               else Inl OSError
           | None \<Rightarrow>
               if creatable dr
               then Inr (Some (dr\<lparr>entries := AList.update name (new_file t) (entries dr)\<rparr>))
               else Inl OSError))"

text \<open>
  \<open>shutil.copy2(src, dst)\<close>: the text of the source written to the destination, which
  then gets the permissions of the source.
\<close>

definition copy2 ::
  "directory option \<Rightarrow> string \<Rightarrow> directory option \<Rightarrow> string \<Rightarrow> exn + directory option" where
  "copy2 src_dir src dst_dir dst =
     (case dir_lookup src_dir src of
        None \<Rightarrow> Inl OSError
      | Some f \<Rightarrow>
          if \<not> readable f then Inl OSError
          else (case open_write dst_dir dst (text_of f) of
                  Inl e \<Rightarrow> Inl e
                | Inr None \<Rightarrow> Inl OSError
                | Inr (Some dr) \<Rightarrow> Inr (Some (dr\<lparr>entries := AList.update dst f (entries dr)\<rparr>))))"

text \<open>\<open>rubrics_dir.mkdir(exist_ok=True)\<close> and \<open>versions_dir.mkdir(exist_ok=True)\<close>\<close>

definition mkdir_rubrics :: "store \<Rightarrow> exn + store" where
  "mkdir_rubrics s =
     (if rubrics s \<noteq> None then Inr s
      else if parent_writable s then Inr (s\<lparr>rubrics := Some new_directory\<rparr>)
      else Inl OSError)"

definition mkdir_versions :: "store \<Rightarrow> exn + store" where
  "mkdir_versions s =
     (if versions s \<noteq> None then Inr s
      else (case rubrics s of
              None \<Rightarrow> Inl OSError
            | Some dr \<Rightarrow> if creatable dr then Inr (s\<lparr>versions := Some new_directory\<rparr>)
                         else Inl OSError))"

subsection \<open>Glob patterns\<close>

text \<open>
  \<open>directory.glob(pattern)\<close> for a pattern of one component: \<open>*\<close> matches any text,
  \<open>?\<close> one character, \<open>[...]\<close> one character of a class (\<open>[!...]\<close> one outside it; a
  \<open>]\<close> right after the opening belongs to the class; a \<open>[\<close> that is never closed stands
  for itself), anything else itself.  \<open>class_end\<close> splits the text after a \<open>[\<close> into the
  class and what follows its \<open>]\<close>.  \<open>glob_match\<close> is for a pattern without \<open>**\<close>
  (which \<open>Path.glob\<close> refuses inside a component): \<open>restore_rubric_version\<close>, whose
  pattern can have one, checks for it before it matches.
\<close>

definition class_end :: "string \<Rightarrow> (string \<times> string) option" where
  "class_end p =
     (case (case p of c # r \<Rightarrow> if c = CHR ''!'' then ([c], r) else ([], p) | [] \<Rightarrow> ([], p)) of
        (neg, p1) \<Rightarrow>
     (case (case p1 of c # r \<Rightarrow> if c = CHR '']'' then ([c], r) else ([], p1) | [] \<Rightarrow> ([], p1)) of
        (bracket, p2) \<Rightarrow>
     (case dropWhile (\<lambda>c. c \<noteq> CHR '']'') p2 of
        [] \<Rightarrow> None
      | _ # after \<Rightarrow> Some (neg @ bracket @ takeWhile (\<lambda>c. c \<noteq> CHR '']'') p2, after))))"

fun in_class :: "string \<Rightarrow> char \<Rightarrow> bool" where
  "in_class [] c = False"
| "in_class [x] c = (x = c)"
| "in_class [x, y] c = (x = c \<or> y = c)"
| "in_class (lo # m # hi # rest) c =
     (if m = CHR ''-'' then (lo \<le> c \<and> c \<le> hi) \<or> in_class rest c
      else lo = c \<or> in_class (m # hi # rest) c)"

definition class_accepts :: "string \<Rightarrow> char \<Rightarrow> bool" where
  "class_accepts stuff c =
     (case stuff of
        x # rest \<Rightarrow> if x = CHR ''!'' then \<not> in_class rest c else in_class stuff c
      | [] \<Rightarrow> False)"

function glob_match :: "string \<Rightarrow> string \<Rightarrow> bool" where
  "glob_match [] s = (s = [])"
| "glob_match (p # ps) s =
     (if p = CHR ''*'' then
        glob_match ps s \<or> (case s of [] \<Rightarrow> False | c # t \<Rightarrow> glob_match (p # ps) t)
      else if p = CHR ''?'' then
        (case s of [] \<Rightarrow> False | c # t \<Rightarrow> glob_match ps t)
      else if p = CHR ''['' then
        (case class_end ps of
           None \<Rightarrow> (case s of [] \<Rightarrow> False | c # t \<Rightarrow> c = p \<and> glob_match ps t)
         | Some (stuff, after) \<Rightarrow>
             (case s of [] \<Rightarrow> False | c # t \<Rightarrow> class_accepts stuff c \<and> glob_match after t))
      else (case s of [] \<Rightarrow> False | c # t \<Rightarrow> c = p \<and> glob_match ps t))"
  by pat_completeness auto
termination
proof -
  have drop: "length ys < length xs" if "dropWhile P xs = y # ys" for P xs and y :: char and ys
  proof -
    have "length (dropWhile P xs) \<le> length xs" by (rule length_dropWhile_le)
    with that show ?thesis by simp
  qed
  have shorter: "length after < length p" if "class_end p = Some (stuff, after)" for p stuff after
    using that by (auto simp: class_end_def split: list.splits if_splits dest!: drop)
  show ?thesis
    by (relation "measure (\<lambda>(p, s). length p + length s)") (auto dest: shorter)
qed

definition glob :: "directory option \<Rightarrow> string \<Rightarrow> string list" where
  "glob d pattern =
     (case d of None \<Rightarrow> [] | Some dr \<Rightarrow> filter (glob_match pattern) (map fst (entries dr)))"

subsection \<open>Dictionary access\<close>

text \<open>\<open>obj.get(k, default)\<close> and \<open>obj[k] = v\<close>.\<close>

fun py_get :: "pyval \<Rightarrow> string \<Rightarrow> pyval \<Rightarrow> exn + pyval" where
  "py_get (PDict d) k dflt = Inr (case map_of d k of None \<Rightarrow> dflt | Some v \<Rightarrow> v)"
| "py_get _ k dflt = Inl AttributeError"

fun py_setitem :: "pyval \<Rightarrow> string \<Rightarrow> pyval \<Rightarrow> exn + pyval" where
  "py_setitem (PDict d) k v = Inr (PDict (AList.update k v d))"
| "py_setitem _ k v = Inl TypeError"

text \<open>
  \<open>f"{v}"\<close>: a string is itself, an \<open>int\<close> its decimal digits (a \<open>ValueError\<close> when
  they are too many), \<open>True\<close>, \<open>False\<close> and \<open>None\<close> their names.  How Python prints a
  float, a list or a dict is not modelled: \<open>render\<close> stands for it.
\<close>

fun py_format :: "(pyval \<Rightarrow> string) \<Rightarrow> pyval \<Rightarrow> exn + string" where
  "py_format render (PStr s) = Inr s"
| "py_format render (PInt n) = py_str_int n"
| "py_format render (PBool b) = Inr (if b then ''True'' else ''False'')"
| "py_format render PNone = Inr ''None''"
| "py_format render v = Inr (render v)"

subsection \<open>\<open>load_rubric_from_file\<close>\<close>

text \<open>The error messages of the store functions.\<close>

datatype serr =
    NotFound
  | InvalidJson
  | LoadError
  | SaveError
  | NoBackupFound string
  | BackupLoadError
  | RestoreError

definition load_rubric_from_file :: "string \<Rightarrow> store \<Rightarrow> pyval option \<times> serr option" where
  "load_rubric_from_file filename s =
     (if \<not> path_exists (rubrics s) (filename @ ''.json'') then (None, Some NotFound)
      else (case open_read (rubrics s) (filename @ ''.json'') of
              Inl e \<Rightarrow> (None, Some LoadError)
            | Inr t \<Rightarrow> (case t of
                         Json rubric \<Rightarrow> (Some rubric, None)
                       | NotJson \<Rightarrow> (None, Some InvalidJson))))"

subsection \<open>\<open>save_rubric_to_file\<close>\<close>

text \<open>
  Marking the backup as archived (source lines 270 to 274): load it, set its
  \<open>status\<close>, write it back.
\<close>

definition mark_archived :: "directory option \<Rightarrow> string \<Rightarrow> exn + directory option" where
  "mark_archived d backup_filename =
     (case json_load d backup_filename of
        Inl e \<Rightarrow> Inl e
      | Inr backup_rubric \<Rightarrow>
          (case py_setitem backup_rubric ''status'' (PStr ''archive'') of
             Inl e \<Rightarrow> Inl e
           | Inr archived \<Rightarrow> open_write d backup_filename (Json archived)))"

text \<open>
  The version the backup is named after (source lines 253 to 258); the bare
  \<open>except\<close> turns every failure into \<open>'unknown'\<close>.
\<close>

definition current_version_of :: "directory option \<Rightarrow> string \<Rightarrow> pyval" where
  "current_version_of d name =
     (case json_load d name of
        Inl e \<Rightarrow> PStr ''unknown''
      | Inr current_rubric \<Rightarrow>
          (case py_get current_rubric ''version'' (PStr ''1.0'') of
             Inl e \<Rightarrow> PStr ''unknown''
           | Inr v \<Rightarrow> v))"

text \<open>\<open>f"{filename}.v{current_version}.{timestamp}.json"\<close> (source line 261)\<close>

definition backup_name ::
  "(pyval \<Rightarrow> string) \<Rightarrow> string \<Rightarrow> pyval \<Rightarrow> string \<Rightarrow> exn + string" where
  "backup_name render filename current_version timestamp =
     (case py_format render current_version of
        Inl e \<Rightarrow> Inl e
      | Inr v \<Rightarrow> Inr (filename @ ''.v'' @ v @ ''.'' @ timestamp @ ''.json''))"

text \<open>
  The backup step (source lines 243 to 280), entered when \<open>create_backup\<close> is set and
  the file exists.  Every exception in it ends in a printed warning.
\<close>

definition backup_step :: "(pyval \<Rightarrow> string) \<Rightarrow> string \<Rightarrow> string \<Rightarrow> store \<Rightarrow> store" where
  "backup_step render filename timestamp s =
     (case mkdir_versions s of
        Inl e \<Rightarrow> s\<lparr>stdout := stdout s @ [WarnNoBackup]\<rparr>
      | Inr s1 \<Rightarrow>
          let current_version = current_version_of (rubrics s1) (filename @ ''.json'')
          in case backup_name render filename current_version timestamp of
               Inl e \<Rightarrow> s1\<lparr>stdout := stdout s1 @ [WarnNoBackup]\<rparr>
             | Inr backup_filename \<Rightarrow>
                 (case copy2 (rubrics s1) (filename @ ''.json'') (versions s1) backup_filename of
                    Inl e \<Rightarrow> s1\<lparr>stdout := stdout s1 @ [WarnNoBackup]\<rparr>
                  | Inr copied \<Rightarrow>
                      (case mark_archived copied backup_filename of
                         Inl e \<Rightarrow>
                           s1\<lparr>versions := copied, stdout := stdout s1 @ [WarnNotArchived]\<rparr>
                       | Inr marked \<Rightarrow>
                           s1\<lparr>versions := marked,
                              stdout := stdout s1 @ [BackupCreated backup_filename]\<rparr>)))"

text \<open>
  \<open>timestamp\<close> is \<open>datetime.now().strftime("%Y%m%d_%H%M%S")\<close> at the time of the call.
\<close>

definition save_rubric_to_file ::
  "(pyval \<Rightarrow> string) \<Rightarrow> pyval \<Rightarrow> string \<Rightarrow> bool \<Rightarrow> string \<Rightarrow> store
     \<Rightarrow> (exn + bool \<times> serr option) \<times> store" where
  "save_rubric_to_file render rubric filename create_backup timestamp s =
     (case mkdir_rubrics s of
        Inl e \<Rightarrow> (Inl e, s)
      | Inr s1 \<Rightarrow>
          let s2 = (if create_backup \<and> path_exists (rubrics s1) (filename @ ''.json'')
                    then backup_step render filename timestamp s1 else s1)
          in case open_write (rubrics s2) (filename @ ''.json'') (Json rubric) of
               Inl e \<Rightarrow> (Inr (False, Some SaveError), s2)
             | Inr written \<Rightarrow> (Inr (True, None), s2\<lparr>rubrics := written\<rparr>))"

subsection \<open>\<open>list_available_rubrics\<close>\<close>

text \<open>An element of the returned list: the keys \<open>filename\<close>, \<open>name\<close>, \<open>description\<close>.\<close>

record listing =
  entry_filename :: string
  entry_name :: pyval
  entry_description :: pyval

text \<open>\<open>Path.stem\<close>: the name without its last suffix.\<close>

definition stem :: "string \<Rightarrow> string" where
  "stem fname =
     (if CHR ''.'' \<notin> set fname then fname
      else let k = length (takeWhile (\<lambda>c. c \<noteq> CHR ''.'') (rev fname));
               i = length fname - k - 1
           in if 0 < i \<and> 0 < k then take i fname else fname)"

text \<open>
  The body of the loop (source lines 315 to 329) for one file: its entry, or nothing
  when the file is skipped or an exception leads to \<open>continue\<close>.
\<close>

definition list_entry :: "directory option \<Rightarrow> string \<Rightarrow> listing option" where
  "list_entry d fname =
     (case json_load d fname of
        Inl e \<Rightarrow> None
      | Inr rubric_data \<Rightarrow>
          (case validate_rubric rubric_data of
             Inl e \<Rightarrow> None
           | Inr (is_valid, _) \<Rightarrow>
               if \<not> is_valid then None
               else (case py_get rubric_data ''status'' PNone of
                       Inl e \<Rightarrow> None
                     | Inr status \<Rightarrow>
                         if \<not> py_eq status (PStr ''current'') then None
                         else (case py_get rubric_data ''name'' (PStr (stem fname)) of
                                 Inl e \<Rightarrow> None
                               | Inr n \<Rightarrow>
                                   (case py_get rubric_data ''description''
                                           (PStr ''No description available'') of
                                      Inl e \<Rightarrow> None
                                    | Inr dsc \<Rightarrow>
                                        Some \<lparr>entry_filename = stem fname, entry_name = n,
                                              entry_description = dsc\<rparr>)))))"

definition sample_entry :: listing where
  "sample_entry = \<lparr>entry_filename = ''sample-rubric'', entry_name = PStr ''Sample Rubric'',
                    entry_description = PStr ''Built-in sample rubric''\<rparr>"

definition list_available_rubrics :: "store \<Rightarrow> listing list" where
  "list_available_rubrics s =
     (let available = List.map_filter (list_entry (rubrics s)) (sort (glob (rubrics s) ''*.json''))
      in if \<not> list_ex (\<lambda>r. entry_filename r = ''sample-rubric'') available
         then sample_entry # available else available)"

subsection \<open>\<open>restore_rubric_version\<close>\<close>

text \<open>
  The pattern is made of the file name and the version as they are (source line 402).
  \<open>Path.glob\<close> refuses a pattern in which \<open>**\<close> is part of a component with a
  \<open>ValueError\<close>, which no \<open>try\<close> of the function catches.
\<close>

definition restore_rubric_version ::
  "string \<Rightarrow> string \<Rightarrow> store \<Rightarrow> (exn + bool \<times> serr option) \<times> store" where
  "restore_rubric_version filename version s =
     (if contains_str ''**'' (filename @ ''.v'' @ version @ ''.*.json'') then (Inl ValueError, s)
      else case glob (versions s) (filename @ ''.v'' @ version @ ''.*.json'') of
        [] \<Rightarrow> (Inr (False, Some (NoBackupFound version)), s)
      | backup_file # _ \<Rightarrow>
          (case json_load (versions s) backup_file of
             Inl e \<Rightarrow> (Inr (False, Some BackupLoadError), s)
           | Inr rubric \<Rightarrow>
               (case py_setitem rubric ''status'' (PStr ''current'') of
                  Inl e \<Rightarrow> (Inl e, s)
                | Inr restored \<Rightarrow>
                    (case open_write (rubrics s) (filename @ ''.json'') (Json restored) of
                       Inl e \<Rightarrow> (Inr (False, Some RestoreError), s)
                     | Inr written \<Rightarrow> (Inr (True, None), s\<lparr>rubrics := written\<rparr>)))))"

subsection \<open>What the claims about the store speak of\<close>

text \<open>\<open>open(path, 'w')\<close> would succeed.\<close>

definition can_write :: "directory option \<Rightarrow> string \<Rightarrow> bool" where
  "can_write d n =
     (valid_name n \<and>
      (case d of
         None \<Rightarrow> False
       | Some dr \<Rightarrow> (case map_of (entries dr) n of Some f \<Rightarrow> writable f | None \<Rightarrow> creatable dr)))"

text \<open>
  The version a backup of the dictionary \<open>d\<close> is named after: its \<open>version\<close>, or
  \<open>'1.0'\<close> when it has none.
\<close>

definition version_of :: "(string \<times> pyval) list \<Rightarrow> pyval" where
  "version_of d = (case map_of d ''version'' of None \<Rightarrow> PStr ''1.0'' | Some v \<Rightarrow> v)"

text \<open>
  A file of the \<open>rubrics\<close> directory that loads as JSON, passes \<open>validate_rubric\<close> and
  has the status \<open>current\<close>.
\<close>

definition listed :: "directory option \<Rightarrow> string \<Rightarrow> bool" where
  "listed d fname =
     (case json_load d fname of
        Inl e \<Rightarrow> False
      | Inr v \<Rightarrow> validate_rubric v = Inr (True, None)
                \<and> py_get v ''status'' PNone = Inr (PStr ''current''))"

text \<open>
  A \<open>rubrics\<close> directory with a current valid rubric, an archived valid one, a current
  one that is not valid, and a file that is not JSON.
\<close>

definition mixed_store :: store where
  "mixed_store =
     \<lparr>rubrics = Some \<lparr>entries =
          [(''sales.json'', new_file (Json (PDict ((''status'', PStr ''current'') # both_keys_rubric)))),
           (''old.json'', new_file (Json (PDict ((''status'', PStr ''archive'') # both_keys_rubric)))),
           (''draft.json'', new_file (Json (PDict ((''status'', PStr ''current'') # common_keys)))),
           (''notes.json'', new_file NotJson)],
          creatable = True\<rparr>,
      versions = None, parent_writable = True, stdout = []\<rparr>"

definition sales_entry :: listing where
  "sales_entry = \<lparr>entry_filename = ''sales'', entry_name = PStr ''sales'',
                   entry_description = PStr ''No description available''\<rparr>"

text \<open>
  A rubric whose version has a slash in it, alone in its directory: its backup would be
  \<open>versions/demo.v1/0.{timestamp}.json\<close>.
\<close>

definition slash_v1 :: "(string \<times> pyval) list" where
  "slash_v1 = [(''name'', PStr ''Demo''), (''version'', PStr ''1/0''), (''status'', PStr ''current'')]"

definition slash_store :: store where
  "slash_store =
     \<lparr>rubrics = Some \<lparr>entries = [(''demo.json'', new_file (Json (PDict slash_v1)))],
                      creatable = True\<rparr>,
      versions = None, parent_writable = True, stdout = []\<rparr>"

text \<open>A rubric whose version has a bracket in it.\<close>

definition bracket_v1 :: "(string \<times> pyval) list" where
  "bracket_v1 = [(''name'', PStr ''Demo''), (''version'', PStr ''[0]''), (''status'', PStr ''current'')]"

text \<open>
  The store before anything was saved, and stores for the examples: one rubric
  \<open>demo.json\<close> in a directory that accepts new entries, and the same in a directory that
  does not (so that \<open>versions\<close> cannot be created).  \<open>no_render\<close> stands for Python's
  printing of floats, lists and dicts in the examples, where none is printed.
\<close>

definition empty_store :: store where
  "empty_store = \<lparr>rubrics = None, versions = None, parent_writable = True, stdout = []\<rparr>"

definition no_render :: "pyval \<Rightarrow> string" where
  "no_render v = []"

definition demo_v1 :: "(string \<times> pyval) list" where
  "demo_v1 = [(''name'', PStr ''Demo''), (''version'', PStr ''1.0''), (''status'', PStr ''current'')]"

definition demo_v2 :: "(string \<times> pyval) list" where
  "demo_v2 = [(''name'', PStr ''Demo''), (''version'', PStr ''1.1''), (''status'', PStr ''current'')]"

definition demo_store :: store where
  "demo_store =
     \<lparr>rubrics = Some \<lparr>entries = [(''demo.json'', new_file (Json (PDict demo_v1)))],
                      creatable = True\<rparr>,
      versions = None, parent_writable = True, stdout = []\<rparr>"

definition locked_store :: store where
  "locked_store =
     \<lparr>rubrics = Some \<lparr>entries = [(''demo.json'', new_file (Json (PDict demo_v1)))],
                      creatable = False\<rparr>,
      versions = None, parent_writable = True, stdout = []\<rparr>"

section \<open>Evaluating floats\<close>

declare bitlen.simps [simp del]

lemma bitlen_numeral: "bitlen (numeral k) = 1 + bitlen (numeral k div 2)"
  by (subst bitlen.simps) simp

lemma bitlen_small: "bitlen 0 = 0" "bitlen 1 = 1" "bitlen (- numeral k) = 0"
  by (simp_all add: bitlen.simps)

lemma floor_rat_numeral: "\<lfloor>(numeral a / numeral b :: rat)\<rfloor> = numeral a div numeral b"
  using floor_divide_of_int_eq [of "numeral a" "numeral b", where ?'a = rat] by simp

lemma floor_rat_numeral1: "\<lfloor>(1 / numeral b :: rat)\<rfloor> = 1 div numeral b"
  using floor_divide_of_int_eq [of "1" "numeral b", where ?'a = rat] by simp

lemmas float_eval = round_double_def ilog2_def pow2_def round_half_even_def
  bitlen_numeral bitlen_small floor_rat_numeral floor_rat_numeral1

lemma c099_val: "c099 = Finite (4458563631096791 / 4503599627370496)"
  unfolding c099_def by (simp add: float_eval)

lemma c101_val: "c101 = Finite (4548635623644201 / 4503599627370496)"
  unfolding c101_def by (simp add: float_eval)

lemma round_double_0: "round_double 0 = Finite 0"
  by (simp add: round_double_def)

lemma round_double_1: "round_double 1 = Finite 1"
  by (simp add: float_eval)

lemma round_double_half: "round_double (1 / 2) = Finite (1 / 2)"
  by (simp add: float_eval)

lemma double_0_4_val: "round_double (4 / 10) = double_0_4"
  unfolding double_0_4_def by (simp add: float_eval)

lemma round_double_0_9:
  "round_double (8106479329266893 / 9007199254740992)
     = Finite (8106479329266893 / 9007199254740992)"
  by (simp add: float_eval)

section \<open>Properties of \<open>validate_rubric\<close>\<close>

lemma step_bind_Ok: "step_bind m f = Ok y \<longleftrightarrow> (\<exists>x. m = Ok x \<and> f x = Ok y)"
  by (cases m) auto

lemma catch_type_value_Ok: "catch_type_value m e = Ok y \<longleftrightarrow> m = Ok y"
  by (cases m) auto

lemma of_res_Ok: "of_res r = Ok x \<longleftrightarrow> r = Inr x"
  by (cases r) auto

lemmas ok_simps = step_bind_Ok catch_type_value_Ok of_res_Ok

lemma step_bind_avoids:
  "m \<noteq> Fail e \<Longrightarrow> (\<And>x. f x \<noteq> Fail e) \<Longrightarrow> step_bind m f \<noteq> Fail e"
  by (cases m) auto

lemma of_res_avoids: "of_res r \<noteq> Fail e"
  by (cases r) auto

lemma catch_avoids: "m \<noteq> Fail e \<Longrightarrow> e' \<noteq> e \<Longrightarrow> catch_type_value m e' \<noteq> Fail e"
  by (cases m) auto

lemma if_avoids: "(c \<Longrightarrow> a \<noteq> Fail e) \<Longrightarrow> (\<not> c \<Longrightarrow> b \<noteq> Fail e) \<Longrightarrow> (if c then a else b) \<noteq> Fail e"
  by simp

lemma prod_avoids: "(\<And>a b. f a b \<noteq> Fail e) \<Longrightarrow> (case p of (a, b) \<Rightarrow> f a b) \<noteq> Fail e"
  by (cases p) simp

lemma list_case_avoids:
  "(\<And>cs. f cs \<noteq> Fail e) \<Longrightarrow> g \<noteq> Fail e
   \<Longrightarrow> (case v of PList cs \<Rightarrow> f cs | _ \<Rightarrow> g) \<noteq> Fail e"
  by (cases v) simp_all

lemmas avoid_intros = step_bind_avoids of_res_avoids catch_avoids if_avoids prod_avoids
  list_case_avoids

lemma check_criterion_no_format: "check_criterion c j k st \<noteq> Fail NoFormat"
  unfolding check_criterion_def Let_def
  by (intro avoid_intros) simp_all

lemma criteria_loop_no_format: "criteria_loop c j ks st \<noteq> Fail NoFormat"
  by (induction ks arbitrary: j st) (simp_all add: step_bind_avoids check_criterion_no_format)

lemma check_category_no_format: "check_category i c st \<noteq> Fail NoFormat"
  unfolding check_category_def Let_def
  by (intro avoid_intros criteria_loop_no_format) simp_all

lemma categories_loop_no_format: "categories_loop i cs st \<noteq> Fail NoFormat"
  by (induction cs arbitrary: i st) (simp_all add: step_bind_avoids check_category_no_format)

lemma check_new_format_no_format: "check_new_format r \<noteq> Fail NoFormat"
  unfolding check_new_format_def Let_def
  by (intro avoid_intros categories_loop_no_format) simp_all

lemma check_flat_criterion_no_format: "check_flat_criterion i c st \<noteq> Fail NoFormat"
  unfolding check_flat_criterion_def Let_def
  by (intro avoid_intros) simp_all

lemma flat_criteria_loop_no_format: "flat_criteria_loop i cs st \<noteq> Fail NoFormat"
  by (induction cs arbitrary: i st)
    (simp_all add: step_bind_avoids check_flat_criterion_no_format)

lemma check_old_format_no_format: "check_old_format r \<noteq> Fail NoFormat"
  unfolding check_old_format_def Let_def
  by (intro avoid_intros flat_criteria_loop_no_format) simp_all

lemma check_scale_no_format: "check_scale r \<noteq> Fail NoFormat"
  unfolding check_scale_def
  by (intro avoid_intros) simp_all

lemma check_thresholds_no_format: "check_thresholds r \<noteq> Fail NoFormat"
  unfolding check_thresholds_def
  by (intro avoid_intros) simp_all

lemma validate_rubric_Fail: "validate_rubric r = Inr (False, Some m) \<longleftrightarrow> validate_steps r = Fail m"
  by (simp add: validate_rubric_def split: step.splits)

lemma validate_rubric_Ok: "validate_rubric r = Inr (True, None) \<longleftrightarrow> validate_steps r = Ok ()"
  by (simp add: validate_rubric_def split: step.splits)

lemma validate_rubric_Raise: "validate_rubric r = Inl e \<longleftrightarrow> validate_steps r = Raise e"
  by (simp add: validate_rubric_def split: step.splits)

lemma validate_steps_dict:
  "validate_steps (PDict d) =
     (if ''categories'' \<notin> set (map fst d) \<and> ''criteria'' \<notin> set (map fst d) then Fail NoFormat
      else step_bind (if ''categories'' \<in> set (map fst d) then check_new_format (PDict d)
                      else check_old_format (PDict d))
             (\<lambda>_. step_bind (check_scale (PDict d)) (\<lambda>_. check_thresholds (PDict d))))"
  by (simp add: validate_steps_def)

lemma validate_no_format_iff:
  "validate_rubric (PDict d) = Inr (False, Some NoFormat)
     \<longleftrightarrow> ''categories'' \<notin> set (map fst d) \<and> ''criteria'' \<notin> set (map fst d)"
proof -
  have rest: "step_bind (if b then check_new_format r else check_old_format r)
          (\<lambda>_. step_bind (check_scale r) (\<lambda>_. check_thresholds r)) \<noteq> Fail NoFormat" for b r
    by (intro avoid_intros check_new_format_no_format check_old_format_no_format
        check_scale_no_format check_thresholds_no_format)
  show ?thesis
    unfolding validate_rubric_Fail validate_steps_dict
    using rest [of "''categories'' \<in> set (map fst d)" "PDict d"]
    by (simp del: set_map)
qed

lemma map_of_delete_other: "k \<noteq> k' \<Longrightarrow> map_of (AList.delete k' d) k = map_of d k"
  by (simp add: delete_conv')

lemma mem_keys_iff: "k \<in> set (map fst d) \<longleftrightarrow> map_of d k \<noteq> None"
  by (simp add: map_of_eq_None_iff)

lemma missing_from_cong:
  assumes "\<And>k. k \<in> set req \<Longrightarrow> map_of d k = map_of d' k"
  shows "missing_from req (map fst d) = missing_from req (map fst d')"
  unfolding missing_from_def
  by (rule filter_cong [OF refl]) (simp only: mem_keys_iff assms)

lemma all_in_dict: "all_in (PDict d) ks = Inr (list_all (\<lambda>k. map_of d k \<noteq> None) ks)"
  by (induction ks) (simp_all add: map_of_eq_None_iff)

lemma check_new_format_cong:
  assumes "\<And>k. k \<in> set [''categories'', ''scale'', ''overall_method'', ''thresholds'']
             \<Longrightarrow> map_of d k = map_of d' k"
  shows "check_new_format (PDict d) = check_new_format (PDict d')"
proof -
  have mf: "missing_from [''categories'', ''scale'', ''overall_method'', ''thresholds''] (map fst d)
      = missing_from [''categories'', ''scale'', ''overall_method'', ''thresholds''] (map fst d')"
    by (rule missing_from_cong) (rule assms)
  have e: "map_of d ''categories'' = map_of d' ''categories''"
    "map_of d ''scale'' = map_of d' ''scale''"
    "map_of d ''overall_method'' = map_of d' ''overall_method''"
    "map_of d ''thresholds'' = map_of d' ''thresholds''"
    by (simp_all add: assms)
  show ?thesis
    unfolding check_new_format_def Let_def all_in_dict by (simp add: mf e)
qed

lemma check_scale_cong:
  assumes "map_of d ''scale'' = map_of d' ''scale''"
  shows "check_scale (PDict d) = check_scale (PDict d')"
  unfolding check_scale_def using assms by simp

lemma check_thresholds_cong:
  assumes "map_of d ''thresholds'' = map_of d' ''thresholds''"
  shows "check_thresholds (PDict d) = check_thresholds (PDict d')"
  unfolding check_thresholds_def using assms by simp

lemma validate_ignores_criteria:
  assumes "''categories'' \<in> set (map fst d)"
  shows "validate_rubric (PDict d) = validate_rubric (PDict (AList.delete ''criteria'' d))"
proof -
  let ?d' = "AList.delete ''criteria'' d"
  have m: "map_of ?d' k = map_of d k" if "k \<noteq> ''criteria''" for k
    using that by (rule map_of_delete_other)
  have c: "''categories'' \<in> set (map fst ?d')"
    using assms unfolding mem_keys_iff by (simp add: m)
  have 1: "check_new_format (PDict d) = check_new_format (PDict ?d')"
    by (rule check_new_format_cong) (auto simp: m)
  have 2: "check_scale (PDict d) = check_scale (PDict ?d')"
    by (rule check_scale_cong) (simp add: m)
  have 3: "check_thresholds (PDict d) = check_thresholds (PDict ?d')"
    by (rule check_thresholds_cong) (simp add: m)
  have "validate_steps (PDict d) = validate_steps (PDict ?d')"
    unfolding validate_steps_dict using assms c 1 2 3 by (simp del: set_map)
  then show ?thesis by (simp add: validate_rubric_def)
qed

lemmas example_defs = mk_criterion_def mk_category_def common_keys_def mk_rubric_def
lemmas validate_defs = validate_rubric_def validate_steps_def check_new_format_def
  check_old_format_def check_category_def check_criterion_def check_flat_criterion_def
  check_scale_def check_thresholds_def set_contains_def py_eq_def missing_from_def
  py_float_int_def Let_def
lemmas float_vals = c099_val c101_val round_double_0 round_double_1 round_double_half round_double_0_9

lemma check_criterion_Ok:
  assumes "check_criterion cat_id j k (seen, pts) = Ok (seen', pts')"
  shows "\<exists>n. criterion_points k = Inr n \<and> 0 < n \<and> pts' = pts + n"
  using assms
  by (auto simp: check_criterion_def criterion_points_def Let_def ok_simps
      split: if_splits sum.splits)

lemma criteria_loop_Ok:
  assumes "criteria_loop cat_id j ks (seen, pts) = Ok (seen', pts')"
  shows "\<exists>s. sum_points ks = Some s \<and> pts' = pts + s"
  using assms
proof (induction ks arbitrary: j seen pts)
  case Nil
  then show ?case by simp
next
  case (Cons k ks)
  from Cons.prems obtain seen1 pts1 where
    1: "check_criterion cat_id j k (seen, pts) = Ok (seen1, pts1)"
    and 2: "criteria_loop cat_id (Suc j) ks (seen1, pts1) = Ok (seen', pts')"
    by (auto simp: ok_simps)
  from check_criterion_Ok [OF 1] obtain n where n: "criterion_points k = Inr n" "pts1 = pts + n"
    by blast
  from Cons.IH [OF 2] obtain s where s: "sum_points ks = Some s" "pts' = pts1 + s"
    by blast
  show ?case using n s by simp
qed

lemma check_category_Ok:
  assumes "check_category i c (seen, tw) = Ok (seen', tw')"
  shows "\<exists>crits declared s w.
           py_getitem c ''criteria'' = Inr (PList crits)
         \<and> py_getitem c ''max_points'' = Inr declared
         \<and> sum_points crits = Some s \<and> py_eq (PInt s) declared
         \<and> item_weight c = Inr w \<and> tw' = fadd tw w"
proof -
  from assms obtain crits declared seen_c pts w where
    a: "py_getitem c ''criteria'' = Inr (PList crits)"
    and b: "py_getitem c ''max_points'' = Inr declared"
    and l: "criteria_loop (projr (py_getitem c ''category_id'')) 0 crits ([], 0) = Ok (seen_c, pts)"
    and e: "py_eq (PInt pts) declared"
    and w: "item_weight c = Inr w" "tw' = fadd tw w"
    by (auto simp: check_category_def item_weight_def Let_def ok_simps
        split: if_splits sum.splits pyval.splits)
  from criteria_loop_Ok [OF l] have "sum_points crits = Some pts" by simp
  with a b e w show ?thesis by blast
qed

lemma list_case_Ok:
  "(case v of PList cs \<Rightarrow> f cs | _ \<Rightarrow> Fail e) = Ok y \<longleftrightarrow> (\<exists>cs. v = PList cs \<and> f cs = Ok y)"
  by (cases v) auto

lemma all_in_Inr_True: "all_in obj ks = Inr True \<Longrightarrow> list_all (\<lambda>k. py_contains obj k = Inr True) ks"
  by (induction ks) (auto split: sum.splits if_splits)

lemma categories_loop_Ok:
  assumes "categories_loop i cs (seen, tw) = Ok (seen', tw')"
  shows "\<exists>ws. weights_of cs = Some ws \<and> tw' = foldl fadd tw ws
           \<and> (\<forall>c\<in>set cs. \<exists>crits declared s.
                  py_getitem c ''criteria'' = Inr (PList crits)
                \<and> py_getitem c ''max_points'' = Inr declared
                \<and> sum_points crits = Some s \<and> py_eq (PInt s) declared)"
  using assms
proof (induction cs arbitrary: i seen tw)
  case Nil
  then show ?case by simp
next
  case (Cons c cs)
  from Cons.prems obtain seen1 tw1 where
    1: "check_category i c (seen, tw) = Ok (seen1, tw1)"
    and 2: "categories_loop (Suc i) cs (seen1, tw1) = Ok (seen', tw')"
    by (auto simp: ok_simps)
  from check_category_Ok [OF 1] obtain crits declared s w where
    c: "py_getitem c ''criteria'' = Inr (PList crits)"
      "py_getitem c ''max_points'' = Inr declared"
      "sum_points crits = Some s" "py_eq (PInt s) declared"
    and w: "item_weight c = Inr w" "tw1 = fadd tw w"
    by blast
  from Cons.IH [OF 2] obtain ws where
    ws: "weights_of cs = Some ws" "tw' = foldl fadd tw1 ws"
    and rest: "\<forall>c\<in>set cs. \<exists>crits declared s.
                  py_getitem c ''criteria'' = Inr (PList crits)
                \<and> py_getitem c ''max_points'' = Inr declared
                \<and> sum_points crits = Some s \<and> py_eq (PInt s) declared"
    by blast
  have "weights_of (c # cs) = Some (w # ws)" "tw' = foldl fadd tw (w # ws)"
    using w ws by simp_all
  moreover have "\<forall>c\<in>set (c # cs). \<exists>crits declared s.
                  py_getitem c ''criteria'' = Inr (PList crits)
                \<and> py_getitem c ''max_points'' = Inr declared
                \<and> sum_points crits = Some s \<and> py_eq (PInt s) declared"
    using c rest by auto
  ultimately show ?case by blast
qed

lemma check_new_format_Ok:
  assumes "check_new_format r = Ok ()"
  shows "\<exists>cs ws. py_getitem r ''categories'' = Inr (PList cs)
           \<and> weights_of cs = Some ws
           \<and> fle c099 (total_weight ws) \<and> fle (total_weight ws) c101
           \<and> (\<forall>c\<in>set cs. \<exists>crits declared s.
                  py_getitem c ''criteria'' = Inr (PList crits)
                \<and> py_getitem c ''max_points'' = Inr declared
                \<and> sum_points crits = Some s \<and> py_eq (PInt s) declared)"
proof -
  from assms obtain cs seen tw where
    a: "py_getitem r ''categories'' = Inr (PList cs)"
    and l: "categories_loop 0 cs ([], Finite 0) = Ok (seen, tw)"
    and t: "fle c099 tw" "fle tw c101"
    unfolding check_new_format_def Let_def
    by (auto simp: ok_simps list_case_Ok split: if_splits)
  from categories_loop_Ok [OF l] a t show ?thesis
    unfolding total_weight_def by blast
qed

lemma check_flat_criterion_Ok:
  assumes "check_flat_criterion i c (seen, tw) = Ok (seen', tw')"
  shows "\<exists>w. item_weight c = Inr w \<and> tw' = fadd tw w"
  using assms
  by (auto simp: check_flat_criterion_def item_weight_def Let_def ok_simps
      split: if_splits sum.splits)

lemma flat_criteria_loop_Ok:
  assumes "flat_criteria_loop i cs (seen, tw) = Ok (seen', tw')"
  shows "\<exists>ws. weights_of cs = Some ws \<and> tw' = foldl fadd tw ws"
  using assms
proof (induction cs arbitrary: i seen tw)
  case Nil
  then show ?case by simp
next
  case (Cons c cs)
  from Cons.prems obtain seen1 tw1 where
    1: "check_flat_criterion i c (seen, tw) = Ok (seen1, tw1)"
    and 2: "flat_criteria_loop (Suc i) cs (seen1, tw1) = Ok (seen', tw')"
    by (auto simp: ok_simps)
  from check_flat_criterion_Ok [OF 1] obtain w where
    w: "item_weight c = Inr w" "tw1 = fadd tw w"
    by blast
  from Cons.IH [OF 2] obtain ws where
    ws: "weights_of cs = Some ws" "tw' = foldl fadd tw1 ws"
    by blast
  show ?case using w ws by simp
qed

lemma check_old_format_Ok:
  assumes "check_old_format r = Ok ()"
  shows "\<exists>cs ws. py_getitem r ''criteria'' = Inr (PList cs)
           \<and> weights_of cs = Some ws
           \<and> fle c099 (total_weight ws) \<and> fle (total_weight ws) c101"
proof -
  from assms obtain cs seen tw where
    a: "py_getitem r ''criteria'' = Inr (PList cs)"
    and l: "flat_criteria_loop 0 cs ([], Finite 0) = Ok (seen, tw)"
    and t: "fle c099 tw" "fle tw c101"
    unfolding check_old_format_def Let_def
    by (auto simp: ok_simps list_case_Ok split: if_splits)
  from flat_criteria_loop_Ok [OF l] a t show ?thesis
    unfolding total_weight_def by blast
qed

lemma validate_steps_Ok:
  assumes "validate_steps r = Ok ()"
  shows "(py_contains r ''categories'' = Inr True \<and> check_new_format r = Ok ())
       \<or> (py_contains r ''categories'' = Inr False \<and> check_old_format r = Ok ())"
  using assms
  by (auto simp: validate_steps_def ok_simps split: if_splits)

lemma py_eq_int: "py_eq (PInt s) v \<longleftrightarrow> num_val v = Some (Finite (of_int s))"
  by (cases v) (auto simp: py_eq_def)

lemma valid_rubric_accepted: "validate_rubric valid_rubric = Inr (True, None)"
  by (simp add: valid_rubric_def example_defs validate_defs float_vals)

lemma valid_flat_rubric_accepted: "validate_rubric valid_flat_rubric = Inr (True, None)"
  by (simp add: valid_flat_rubric_def example_defs validate_defs float_vals)

text \<open>
  A rubric that has both keys \<open>categories\<close> and \<open>criteria\<close> is validated as a
  hierarchical one, and this one is accepted; so "rejected unless exactly one of the two
  keys is present" fails on it.
\<close>

theorem both_keys_accepted:
  "''categories'' \<in> set (map fst both_keys_rubric)
   \<and> ''criteria'' \<in> set (map fst both_keys_rubric)
   \<and> validate_rubric (PDict both_keys_rubric) = Inr (True, None)"
  by (simp add: both_keys_rubric_def example_defs validate_defs float_vals)

text \<open>
  Claim C1, as the code has it.  For a dictionary, \<open>validate_rubric\<close> returns the reason
  "must have either 'categories' or 'criteria'" exactly when neither key is present.  When
  \<open>categories\<close> is present the hierarchical checks decide, whether or not \<open>criteria\<close> is
  there too: the result is that of the same dictionary without its \<open>criteria\<close> key.
\<close>

theorem no_format_reason:
  "(validate_rubric (PDict d) = Inr (False, Some NoFormat)
      \<longleftrightarrow> ''categories'' \<notin> set (map fst d) \<and> ''criteria'' \<notin> set (map fst d))
   \<and> (''categories'' \<in> set (map fst d)
        \<longrightarrow> validate_rubric (PDict d) = validate_rubric (PDict (AList.delete ''criteria'' d)))"
  using validate_no_format_iff [of d] validate_ignores_criteria [of d] by blast

theorem no_format_reason_witness:
  "''categories'' \<in> set (map fst both_keys_rubric)
   \<and> validate_rubric (PDict both_keys_rubric)
       = validate_rubric (PDict (AList.delete ''criteria'' both_keys_rubric))
   \<and> ''categories'' \<notin> set (map fst common_keys) \<and> ''criteria'' \<notin> set (map fst common_keys)
   \<and> validate_rubric (PDict common_keys) = Inr (False, Some NoFormat)"
proof -
  have h1: "''categories'' \<in> set (map fst both_keys_rubric)"
    by (simp add: both_keys_rubric_def)
  have h2: "''categories'' \<notin> set (map fst common_keys) \<and> ''criteria'' \<notin> set (map fst common_keys)"
    by (simp add: common_keys_def)
  from no_format_reason [of both_keys_rubric] h1
  have r1: "validate_rubric (PDict both_keys_rubric)
       = validate_rubric (PDict (AList.delete ''criteria'' both_keys_rubric))" by blast
  from no_format_reason [of common_keys] h2
  have r2: "validate_rubric (PDict common_keys) = Inr (False, Some NoFormat)" by blast
  show ?thesis using h1 h2 r1 r2 by blast
qed

text \<open>
  What the check of source line 137 ensures.  When \<open>validate_rubric\<close> accepts a rubric
  that has the key \<open>categories\<close>, that key holds a list, and every category in it
  declares a \<open>max_points\<close> whose numeric value is exactly the sum that the code
  accumulates, which is that of \<open>int(criterion["max_points"])\<close> over its criteria: the
  comparison is \<open>!=\<close>, with no tolerance.  The rubric whose one category declares 10
  points over criteria of 5 and 3 points is rejected with the sum-mismatch reason, which
  carries the declared 10 and the sum 8.
\<close>

lemma category_points_checked:
  "(\<forall>r. validate_rubric r = Inr (True, None) \<and> py_contains r ''categories'' = Inr True
      \<longrightarrow> (\<exists>cs. py_getitem r ''categories'' = Inr (PList cs)
            \<and> (\<forall>c\<in>set cs. \<exists>crits declared s.
                   py_getitem c ''criteria'' = Inr (PList crits)
                 \<and> py_getitem c ''max_points'' = Inr declared
                 \<and> sum_points crits = Some s
                 \<and> num_val declared = Some (Finite (of_int s)))))
   \<and> validate_rubric mismatch_rubric
       = Inr (False, Some (SumMismatch (PStr ''content'') (PInt 10) 8))"
proof -
  have general: "\<exists>cs. py_getitem r ''categories'' = Inr (PList cs)
            \<and> (\<forall>c\<in>set cs. \<exists>crits declared s.
                   py_getitem c ''criteria'' = Inr (PList crits)
                 \<and> py_getitem c ''max_points'' = Inr declared
                 \<and> sum_points crits = Some s
                 \<and> num_val declared = Some (Finite (of_int s)))"
    if ok: "validate_rubric r = Inr (True, None)" and new: "py_contains r ''categories'' = Inr True"
    for r
  proof -
    from ok have "validate_steps r = Ok ()" by (simp add: validate_rubric_Ok)
    from validate_steps_Ok [OF this] new have "check_new_format r = Ok ()" by auto
    from check_new_format_Ok [OF this] show ?thesis
      unfolding py_eq_int by blast
  qed
  have example: "validate_rubric mismatch_rubric
       = Inr (False, Some (SumMismatch (PStr ''content'') (PInt 10) 8))"
    by (simp add: mismatch_rubric_def example_defs validate_defs float_vals)
  show ?thesis using general example by blast
qed

lemma category_points_checked_valid_rubric:
  "validate_rubric valid_rubric = Inr (True, None)
   \<and> py_contains valid_rubric ''categories'' = Inr True
   \<and> (\<exists>cs. py_getitem valid_rubric ''categories'' = Inr (PList cs)
            \<and> (\<forall>c\<in>set cs. \<exists>crits declared s.
                   py_getitem c ''criteria'' = Inr (PList crits)
                 \<and> py_getitem c ''max_points'' = Inr declared
                 \<and> sum_points crits = Some s
                 \<and> num_val declared = Some (Finite (of_int s))))"
proof -
  have h1: "validate_rubric valid_rubric = Inr (True, None)"
    by (simp add: valid_rubric_def example_defs validate_defs float_vals)
  have h2: "py_contains valid_rubric ''categories'' = Inr True"
    by (simp add: valid_rubric_def example_defs)
  from category_points_checked h1 h2 show ?thesis by blast
qed

text \<open>
  Claim C2 does not hold of the code when a criterion has a fractional \<open>max_points\<close>.
  The sum that is compared is the sum of \<open>int(criterion["max_points"])\<close>, and \<open>int\<close>
  truncates a float instead of rejecting it: the rubric whose one category declares 2
  points over a single criterion of 2.5 points is accepted, although the
  \<open>max_points\<close> of its criteria sum to 2.5 and not to the declared 2.
\<close>

theorem truncated_points_accepted:
  "validate_rubric truncated_rubric = Inr (True, None)
   \<and> py_getitem truncated_rubric ''categories''
       = Inr (PList [mk_category ''content'' (PInt 1) (PInt 2)
                       [mk_criterion ''clarity'' (PFloat (Finite (5 / 2)))]])
   \<and> exact_sum_points [mk_criterion ''clarity'' (PFloat (Finite (5 / 2)))] = Some (5 / 2)
   \<and> exact_points (PInt 2) = Some 2
   \<and> sum_points [mk_criterion ''clarity'' (PFloat (Finite (5 / 2)))] = Some 2"
proof -
  have a: "validate_rubric truncated_rubric = Inr (True, None)"
    by (simp add: truncated_rubric_def example_defs validate_defs float_vals floor_rat_numeral)
  have b: "py_getitem truncated_rubric ''categories''
       = Inr (PList [mk_category ''content'' (PInt 1) (PInt 2)
                       [mk_criterion ''clarity'' (PFloat (Finite (5 / 2)))]])"
    by (simp add: truncated_rubric_def mk_rubric_def)
  have c: "exact_sum_points [mk_criterion ''clarity'' (PFloat (Finite (5 / 2)))] = Some (5 / 2)"
    by (simp add: mk_criterion_def)
  have d: "sum_points [mk_criterion ''clarity'' (PFloat (Finite (5 / 2)))] = Some 2"
    by (simp add: mk_criterion_def criterion_points_def floor_rat_numeral)
  show ?thesis using a b c d by simp
qed

text \<open>
  Claim C3.  When \<open>validate_rubric\<close> accepts a rubric, its top-level items (the
  categories when the key \<open>categories\<close> is present, the flat criteria otherwise) all have
  a weight that \<open>float\<close> accepts, and the sum of these weights, added in order to
  \<open>0.0\<close>, lies between the doubles \<open>0.99\<close> and \<open>1.01\<close>, both included.  The rubric with
  the category weights \<open>0.5\<close> and \<open>0.4\<close> is rejected with the weight-sum reason, which
  carries the sum, the double \<open>0.9\<close>.
\<close>

theorem weight_sum_checked:
  "(\<forall>r. validate_rubric r = Inr (True, None)
      \<longrightarrow> (\<exists>items ws.
             py_getitem r (if py_contains r ''categories'' = Inr True then ''categories''
                           else ''criteria'') = Inr (PList items)
           \<and> weights_of items = Some ws
           \<and> fle c099 (total_weight ws) \<and> fle (total_weight ws) c101))
   \<and> validate_rubric underweight_rubric
       = Inr (False, Some (CatWeightSum (Finite (8106479329266893 / 9007199254740992))))"
proof -
  have general: "\<exists>items ws.
             py_getitem r (if py_contains r ''categories'' = Inr True then ''categories''
                           else ''criteria'') = Inr (PList items)
           \<and> weights_of items = Some ws
           \<and> fle c099 (total_weight ws) \<and> fle (total_weight ws) c101"
    if ok: "validate_rubric r = Inr (True, None)" for r
  proof -
    from ok have "validate_steps r = Ok ()" by (simp add: validate_rubric_Ok)
    from validate_steps_Ok [OF this] show ?thesis
    proof
      assume a: "py_contains r ''categories'' = Inr True \<and> check_new_format r = Ok ()"
      with check_new_format_Ok [of r] show ?thesis by auto
    next
      assume a: "py_contains r ''categories'' = Inr False \<and> check_old_format r = Ok ()"
      with check_old_format_Ok [of r] show ?thesis by auto
    qed
  qed
  have example: "validate_rubric underweight_rubric
       = Inr (False, Some (CatWeightSum (Finite (8106479329266893 / 9007199254740992))))"
    by (simp add: underweight_rubric_def double_0_4_def example_defs validate_defs float_vals)
  show ?thesis using general example by blast
qed

theorem weight_sum_checked_witness:
  "validate_rubric valid_rubric = Inr (True, None)
   \<and> (\<exists>items ws.
         py_getitem valid_rubric (if py_contains valid_rubric ''categories'' = Inr True
                                  then ''categories'' else ''criteria'') = Inr (PList items)
       \<and> weights_of items = Some ws
       \<and> fle c099 (total_weight ws) \<and> fle (total_weight ws) c101)
   \<and> validate_rubric valid_flat_rubric = Inr (True, None)
   \<and> (\<exists>items ws.
         py_getitem valid_flat_rubric (if py_contains valid_flat_rubric ''categories'' = Inr True
                                  then ''categories'' else ''criteria'') = Inr (PList items)
       \<and> weights_of items = Some ws
       \<and> fle c099 (total_weight ws) \<and> fle (total_weight ws) c101)"
proof -
  have h1: "validate_rubric valid_rubric = Inr (True, None)"
    by (simp add: valid_rubric_def example_defs validate_defs float_vals)
  have h2: "validate_rubric valid_flat_rubric = Inr (True, None)"
    by (simp add: valid_flat_rubric_def example_defs validate_defs float_vals)
  from weight_sum_checked h1 h2 show ?thesis by blast
qed

text \<open>
  Claim C9 does not hold of the code: on these three dictionaries an exception leaves
  \<open>validate_rubric\<close>.  A category that is the number 5 makes \<open>"category_id" in category\<close>
  raise \<open>TypeError\<close>; a category id that is a list makes the lookup in \<open>seen_cat_ids\<close>
  raise \<open>TypeError\<close> (unhashable); both are outside every \<open>try\<close>.  A \<open>max_points\<close> that
  is the float infinity makes \<open>int\<close> raise \<open>OverflowError\<close>, which the handler for
  \<open>(TypeError, ValueError)\<close> does not catch.
\<close>

theorem validate_rubric_raises:
  "validate_rubric bad_category_rubric = Inl TypeError
   \<and> validate_rubric list_id_rubric = Inl TypeError
   \<and> validate_rubric infinite_points_rubric = Inl OverflowError"
  by (simp add: bad_category_rubric_def list_id_rubric_def infinite_points_rubric_def
      example_defs validate_defs float_vals)

section \<open>Properties of the rubric store\<close>

lemma dir_lookup_update:
  "dir_lookup (Some (dr\<lparr>entries := AList.update n f (entries dr)\<rparr>)) n' =
     (if n' = n then Some f else dir_lookup (Some dr) n')"
  by (simp add: dir_lookup_def update_conv')

lemma valid_name_no_nul: "valid_name n \<Longrightarrow> \<not> has_nul n"
  by (simp add: valid_name_def)

lemma open_write_valid: "open_write d n t = Inr d' \<Longrightarrow> valid_name n"
  by (auto simp: open_write_def split: if_splits)

lemma valid_names:
  "valid_name ''demo.json''" "\<not> has_nul ''demo.json''"
  "valid_name ''demo.v1.0.20250101_120000.json''"
  "\<not> has_nul ''demo.v1.0.20250101_120000.json''"
  "valid_name ''demo.v[0].20250102_120000.json''"
  "\<not> has_nul ''demo.v[0].20250102_120000.json''"
  "\<not> valid_name ''demo.v1/0.20250101_120000.json''"
  "\<not> has_nul ''demo.v1/0.20250101_120000.json''"
  by (simp_all add: valid_name_def has_nul_def utf8_length_def)

lemma open_write_lookup:
  assumes "open_write d n t = Inr d'"
  shows "dir_lookup d' n' =
     (if n' = n then Some (case dir_lookup d n of None \<Rightarrow> new_file t | Some f \<Rightarrow> f\<lparr>text_of := t\<rparr>)
      else dir_lookup d n')"
  using assms
  by (auto simp: open_write_def dir_lookup_def update_conv' split: option.splits if_splits)

lemma rubrics_backup_step [simp]: "rubrics (backup_step render x ts s) = rubrics s"
  by (auto simp: backup_step_def mkdir_versions_def Let_def split: sum.splits option.splits if_splits)

lemma parent_writable_backup_step [simp]:
  "parent_writable (backup_step render x ts s) = parent_writable s"
  by (auto simp: backup_step_def mkdir_versions_def Let_def split: sum.splits option.splits if_splits)

lemma save_result:
  assumes "mkdir_rubrics s = Inr s1"
  shows "save_rubric_to_file render r x cb ts s =
     (let s2 = (if cb \<and> path_exists (rubrics s1) (x @ ''.json'')
                then backup_step render x ts s1 else s1)
      in case open_write (rubrics s1) (x @ ''.json'') (Json r) of
           Inl e \<Rightarrow> (Inr (False, Some SaveError), s2)
         | Inr written \<Rightarrow> (Inr (True, None), s2\<lparr>rubrics := written\<rparr>))"
  using assms by (simp add: save_rubric_to_file_def Let_def)

lemma save_success:
  assumes "save_rubric_to_file render r x cb ts s = (Inr (True, None), s')"
  shows "\<exists>s1. mkdir_rubrics s = Inr s1
           \<and> open_write (rubrics s1) (x @ ''.json'') (Json r) = Inr (rubrics s')"
  using assms
  by (auto simp: save_rubric_to_file_def Let_def split: sum.splits if_splits)

lemma mkdir_rubrics_lookup:
  "mkdir_rubrics s = Inr s1 \<Longrightarrow> dir_lookup (rubrics s1) n = dir_lookup (rubrics s) n"
  by (auto simp: mkdir_rubrics_def dir_lookup_def new_directory_def split: if_splits)

lemma stdout_mkdir_versions: "mkdir_versions s = Inr s1 \<Longrightarrow> stdout s1 = stdout s"
  by (auto simp: mkdir_versions_def split: if_splits option.splits)

lemma rubrics_mkdir_versions: "mkdir_versions s = Inr s1 \<Longrightarrow> rubrics s1 = rubrics s"
  by (auto simp: mkdir_versions_def split: if_splits option.splits)

lemma versions_mkdir_versions:
  "mkdir_versions s = Inr s1 \<Longrightarrow> dir_lookup (versions s1) n = dir_lookup (versions s) n"
  by (auto simp: mkdir_versions_def dir_lookup_def new_directory_def
      split: if_splits option.splits)


lemma copy2_lookup:
  assumes "copy2 sd sn dd dn = Inr copied"
  shows "\<exists>f. dir_lookup sd sn = Some f \<and> readable f \<and> dir_lookup copied dn = Some f
           \<and> valid_name dn"
  using assms
  by (auto simp: copy2_def dir_lookup_update split: option.splits if_splits sum.splits
      dest: open_write_valid)

lemma copy2_invalid: "\<not> valid_name dn \<Longrightarrow> \<exists>e. copy2 sd sn dd dn = Inl e"
  by (simp add: copy2_def open_write_def split: option.splits)

lemma json_load_Inr:
  "json_load d n = Inr v \<longleftrightarrow> (\<exists>f. dir_lookup d n = Some f \<and> readable f \<and> text_of f = Json v)"
  by (auto simp: json_load_def open_read_def split: option.splits sum.splits file_text.splits)

lemma py_setitem_Inr: "py_setitem v k a = Inr v' \<longleftrightarrow> (\<exists>d. v = PDict d \<and> v' = PDict (AList.update k a d))"
  by (cases v) auto

lemma mark_archived_lookup:
  assumes "mark_archived copied bn = Inr marked" and "dir_lookup copied bn = Some f"
  shows "\<exists>d. text_of f = Json (PDict d)
         \<and> dir_lookup marked bn
             = Some (f\<lparr>text_of := Json (PDict (AList.update ''status'' (PStr ''archive'') d))\<rparr>)"
proof -
  from assms(1) obtain v archived where
    l: "json_load copied bn = Inr v"
    and a: "py_setitem v ''status'' (PStr ''archive'') = Inr archived"
    and w: "open_write copied bn (Json archived) = Inr marked"
    by (auto simp: mark_archived_def split: sum.splits)
  from l assms(2) have t: "text_of f = Json v" by (auto simp: json_load_Inr)
  from a obtain d where d: "v = PDict d" "archived = PDict (AList.update ''status'' (PStr ''archive'') d)"
    by (auto simp: py_setitem_Inr)
  from open_write_lookup [OF w, of bn] assms(2) t d show ?thesis by simp
qed

lemma current_version_of_dict:
  assumes "dir_lookup d n = Some f" "readable f" "text_of f = Json (PDict r)"
  shows "current_version_of d n = version_of r"
  using assms by (simp add: current_version_of_def json_load_def open_read_def version_of_def)

lemma backup_created:
  assumes "stdout (backup_step render x ts s) = stdout s @ [BackupCreated bn]"
  shows "\<exists>d f. dir_lookup (rubrics s) (x @ ''.json'') = Some f \<and> readable f
           \<and> text_of f = Json (PDict d)
           \<and> backup_name render x (version_of d) ts = Inr bn
           \<and> valid_name bn
           \<and> dir_lookup (versions (backup_step render x ts s)) bn
               = Some (f\<lparr>text_of := Json (PDict (AList.update ''status'' (PStr ''archive'') d))\<rparr>)"
proof -
  let ?n = "x @ ''.json''"
  from assms obtain s1 copied marked where
    m: "mkdir_versions s = Inr s1"
    and bn: "backup_name render x (current_version_of (rubrics s1) ?n) ts = Inr bn"
    and c: "copy2 (rubrics s1) ?n (versions s1) bn = Inr copied"
    and k: "mark_archived copied bn = Inr marked"
    and v: "versions (backup_step render x ts s) = marked"
    by (auto simp: backup_step_def Let_def stdout_mkdir_versions split: sum.splits)
  have r: "rubrics s1 = rubrics s" using m by (rule rubrics_mkdir_versions)
  from copy2_lookup [OF c] obtain f where
    f: "dir_lookup (rubrics s) ?n = Some f" "readable f" "dir_lookup copied bn = Some f"
      "valid_name bn"
    unfolding r by blast
  from mark_archived_lookup [OF k f(3)] obtain d where
    d: "text_of f = Json (PDict d)"
      "dir_lookup marked bn
         = Some (f\<lparr>text_of := Json (PDict (AList.update ''status'' (PStr ''archive'') d))\<rparr>)"
    by blast
  have "current_version_of (rubrics s) ?n = version_of d"
    using f(1,2) d(1) by (rule current_version_of_dict)
  with bn r f d v show ?thesis by auto
qed

lemma open_write_can:
  "can_write d n \<Longrightarrow> \<exists>d'. open_write d n t = Inr d'"
  by (auto simp: can_write_def open_write_def valid_name_no_nul split: option.splits)

lemma open_write_Inr_iff: "(\<exists>d'. open_write d n t = Inr d') \<longleftrightarrow> can_write d n"
  by (auto simp: can_write_def open_write_def valid_name_no_nul split: option.splits if_splits)

lemma backup_succeeds:
  assumes f: "dir_lookup (rubrics s) (x @ ''.json'') = Some f" "readable f" "writable f"
      "text_of f = Json (PDict d)"
    and bn: "backup_name render x (version_of d) ts = Inr bn"
    and v: "if versions s = None then valid_name bn \<and> (\<exists>dr. rubrics s = Some dr \<and> creatable dr)
            else can_write (versions s) bn"
  shows "stdout (backup_step render x ts s) = stdout s @ [BackupCreated bn]"
proof -
  let ?n = "x @ ''.json''"
  obtain s1 where m: "mkdir_versions s = Inr s1"
    and v1: "can_write (versions s1) bn"
    using v by (auto simp: mkdir_versions_def can_write_def new_directory_def split: if_splits)
  from v1 have vn: "valid_name bn" by (simp add: can_write_def)
  have r: "rubrics s1 = rubrics s" using m by (rule rubrics_mkdir_versions)
  have cv: "current_version_of (rubrics s1) ?n = version_of d"
    unfolding r using f(1,2,4) by (rule current_version_of_dict)
  from open_write_can [OF v1] obtain w where w: "open_write (versions s1) bn (text_of f) = Inr w"
    by blast
  then obtain dr where dr: "w = Some dr"
    by (auto simp: open_write_def split: option.splits if_splits)
  define copied where "copied = Some (dr\<lparr>entries := AList.update bn f (entries dr)\<rparr>)"
  have c: "copy2 (rubrics s1) ?n (versions s1) bn = Inr copied"
    using f w dr by (simp add: copy2_def r copied_def)
  have lc: "dir_lookup copied bn = Some f"
    by (simp add: copied_def dir_lookup_update)
  have "can_write copied bn"
    using f(3) vn by (simp add: can_write_def copied_def update_conv')
  from open_write_can [OF this] obtain marked where
    "open_write copied bn (Json (PDict (AList.update ''status'' (PStr ''archive'') d))) = Inr marked"
    by blast
  then have k: "mark_archived copied bn = Inr marked"
    using lc f by (simp add: mark_archived_def json_load_def open_read_def)
  show ?thesis
    using m c k cv bn by (simp add: backup_step_def Let_def stdout_mkdir_versions)
qed

lemma backup_refused:
  assumes f: "dir_lookup (rubrics s) (x @ ''.json'') = Some f" "readable f"
      "text_of f = Json (PDict d)"
    and bn: "backup_name render x (version_of d) ts = Inr bn"
    and nv: "\<not> valid_name bn"
  shows "stdout (backup_step render x ts s) = stdout s @ [WarnNoBackup]
         \<and> dir_lookup (versions (backup_step render x ts s)) n = dir_lookup (versions s) n"
proof (cases "mkdir_versions s")
  case (Inl e)
  then show ?thesis by (simp add: backup_step_def)
next
  case (Inr s1)
  let ?n = "x @ ''.json''"
  have r: "rubrics s1 = rubrics s" using Inr by (rule rubrics_mkdir_versions)
  have cv: "current_version_of (rubrics s1) ?n = version_of d"
    unfolding r using f by (rule current_version_of_dict)
  from copy2_invalid [OF nv] obtain e where
    c: "copy2 (rubrics s1) ?n (versions s1) bn = Inl e"
    by blast
  show ?thesis
    using Inr c cv bn
    by (simp add: backup_step_def Let_def stdout_mkdir_versions versions_mkdir_versions)
qed

lemmas store_defs = save_rubric_to_file_def backup_step_def mkdir_rubrics_def
  mkdir_versions_def path_exists_def dir_lookup_def open_write_def open_read_def copy2_def
  mark_archived_def json_load_def current_version_of_def backup_name_def new_file_def
  new_directory_def load_rubric_from_file_def restore_rubric_version_def can_write_def
  version_of_def Let_def
lemmas store_examples = empty_store_def demo_store_def locked_store_def demo_v1_def
  demo_v2_def valid_names

text \<open>
  Claim C5.  When \<open>save_rubric_to_file\<close> reports success for the rubric \<open>r\<close> under the
  name \<open>x\<close>, and the file, if it was there before, can be read, then
  \<open>load_rubric_from_file\<close> of \<open>x\<close> returns \<open>r\<close> and no error.  The loaded rubric is \<open>r\<close>
  itself: saving adds no \<open>status\<close> field.
\<close>

theorem save_then_load:
  assumes "save_rubric_to_file render r x cb ts s = (Inr (True, None), s')"
    and "\<forall>f. dir_lookup (rubrics s) (x @ ''.json'') = Some f \<longrightarrow> readable f"
  shows "load_rubric_from_file x s' = (Some r, None)"
proof -
  from save_success [OF assms(1)] obtain s1 where
    m: "mkdir_rubrics s = Inr s1"
    and w: "open_write (rubrics s1) (x @ ''.json'') (Json r) = Inr (rubrics s')"
    by blast
  have l: "dir_lookup (rubrics s') (x @ ''.json'')
      = Some (case dir_lookup (rubrics s) (x @ ''.json'') of
                None \<Rightarrow> new_file (Json r) | Some f \<Rightarrow> f\<lparr>text_of := Json r\<rparr>)"
    using open_write_lookup [OF w, of "x @ ''.json''"] mkdir_rubrics_lookup [OF m] by simp
  show ?thesis
    using l assms(2)
    by (auto simp: load_rubric_from_file_def path_exists_def open_read_def new_file_def
        split: option.splits)
qed

theorem save_then_load_witness:
  "fst (save_rubric_to_file no_render (PDict demo_v1) ''demo'' True ''20250101_120000'' empty_store)
     = Inr (True, None)
   \<and> load_rubric_from_file ''demo''
       (snd (save_rubric_to_file no_render (PDict demo_v1) ''demo'' True ''20250101_120000''
              empty_store))
     = (Some (PDict demo_v1), None)
   \<and> fst (save_rubric_to_file no_render (PDict demo_v2) ''demo'' True ''20250101_120000'' demo_store)
     = Inr (True, None)
   \<and> load_rubric_from_file ''demo''
       (snd (save_rubric_to_file no_render (PDict demo_v2) ''demo'' True ''20250101_120000''
              demo_store))
     = (Some (PDict demo_v2), None)"
proof -
  let ?a = "save_rubric_to_file no_render (PDict demo_v1) ''demo'' True ''20250101_120000'' empty_store"
  let ?b = "save_rubric_to_file no_render (PDict demo_v2) ''demo'' True ''20250101_120000'' demo_store"
  have a1: "fst ?a = Inr (True, None)"
    by (simp add: store_defs store_examples)
  have a2: "\<forall>f. dir_lookup (rubrics empty_store) (''demo'' @ ''.json'') = Some f \<longrightarrow> readable f"
    by (simp add: store_defs store_examples)
  have b1: "fst ?b = Inr (True, None)"
    by (simp add: store_defs store_examples)
  have b2: "\<forall>f. dir_lookup (rubrics demo_store) (''demo'' @ ''.json'') = Some f \<longrightarrow> readable f"
    by (simp add: store_defs store_examples)
  have a: "?a = (Inr (True, None), snd ?a)" using a1 by (metis prod.collapse)
  have b: "?b = (Inr (True, None), snd ?b)" using b1 by (metis prod.collapse)
  show ?thesis
    using a1 b1 save_then_load [OF a a2] save_then_load [OF b b2] by simp
qed

lemma mkdir_rubrics_exists:
  "path_exists (rubrics s) n \<Longrightarrow> mkdir_rubrics s = Inr s"
  by (auto simp: mkdir_rubrics_def path_exists_def dir_lookup_def split: option.splits)

text \<open>
  Claim C8.  The backup step never changes the \<open>rubrics\<close> directory: the live file keeps
  its content, \<open>status\<close> included.  When the step completes (it prints "Backup created"),
  the live file held a JSON object, and \<open>versions\<close> holds under the name
  \<open>{filename}.v{version}.{timestamp}.json\<close>, which is a valid file name, a copy of it
  whose \<open>status\<close> is \<open>archive\<close>; the version is the one of the live file, \<open>1.0\<close> if it
  has none.  The step does complete when the live file can be read and written and holds
  a JSON object, that name is a valid file name and the backup can be written under it
  (into a \<open>versions\<close> directory that exists, or that can be created).  When that name is
  not a valid file name (the version has a \<open>/\<close> in it, say), the step prints the warning
  and leaves the \<open>versions\<close> directory without a new file.  And \<open>save_rubric_to_file\<close>
  with \<open>create_backup\<close> on an existing file is the backup step followed by the final
  write, which alone replaces the live file.
\<close>

theorem backup_step_effect:
  "rubrics (backup_step render x ts s) = rubrics s
   \<and> (\<forall>bn. stdout (backup_step render x ts s) = stdout s @ [BackupCreated bn] \<longrightarrow>
        (\<exists>d f v. dir_lookup (rubrics s) (x @ ''.json'') = Some f \<and> text_of f = Json (PDict d)
            \<and> py_format render (version_of d) = Inr v
            \<and> bn = x @ ''.v'' @ v @ ''.'' @ ts @ ''.json''
            \<and> valid_name bn
            \<and> dir_lookup (versions (backup_step render x ts s)) bn
                = Some (f\<lparr>text_of := Json (PDict (AList.update ''status'' (PStr ''archive'') d))\<rparr>)))
   \<and> (\<forall>f d v. dir_lookup (rubrics s) (x @ ''.json'') = Some f \<and> readable f \<and> writable f
            \<and> text_of f = Json (PDict d)
            \<and> py_format render (version_of d) = Inr v
            \<and> (if versions s = None
               then valid_name (x @ ''.v'' @ v @ ''.'' @ ts @ ''.json'')
                    \<and> (\<exists>dr. rubrics s = Some dr \<and> creatable dr)
               else can_write (versions s) (x @ ''.v'' @ v @ ''.'' @ ts @ ''.json''))
        \<longrightarrow> stdout (backup_step render x ts s)
              = stdout s @ [BackupCreated (x @ ''.v'' @ v @ ''.'' @ ts @ ''.json'')])
   \<and> (\<forall>f d v. dir_lookup (rubrics s) (x @ ''.json'') = Some f \<and> readable f
            \<and> text_of f = Json (PDict d)
            \<and> py_format render (version_of d) = Inr v
            \<and> \<not> valid_name (x @ ''.v'' @ v @ ''.'' @ ts @ ''.json'')
        \<longrightarrow> stdout (backup_step render x ts s) = stdout s @ [WarnNoBackup]
            \<and> (\<forall>n. dir_lookup (versions (backup_step render x ts s)) n
                     = dir_lookup (versions s) n))
   \<and> (path_exists (rubrics s) (x @ ''.json'') \<longrightarrow>
        save_rubric_to_file render r x True ts s =
          (case open_write (rubrics s) (x @ ''.json'') (Json r) of
             Inl e \<Rightarrow> (Inr (False, Some SaveError), backup_step render x ts s)
           | Inr written \<Rightarrow> (Inr (True, None), (backup_step render x ts s)\<lparr>rubrics := written\<rparr>)))"
proof -
  have nm: "backup_name render x (version_of d) ts = Inr (x @ ''.v'' @ v @ ''.'' @ ts @ ''.json'')"
    if "py_format render (version_of d) = Inr v" for d v
    using that by (simp add: backup_name_def)
  have 1: "rubrics (backup_step render x ts s) = rubrics s" by simp
  have 2: "\<exists>d f v. dir_lookup (rubrics s) (x @ ''.json'') = Some f \<and> text_of f = Json (PDict d)
            \<and> py_format render (version_of d) = Inr v
            \<and> bn = x @ ''.v'' @ v @ ''.'' @ ts @ ''.json''
            \<and> valid_name bn
            \<and> dir_lookup (versions (backup_step render x ts s)) bn
                = Some (f\<lparr>text_of := Json (PDict (AList.update ''status'' (PStr ''archive'') d))\<rparr>)"
    if "stdout (backup_step render x ts s) = stdout s @ [BackupCreated bn]" for bn
  proof -
    from backup_created [OF that] obtain d f where
      a: "dir_lookup (rubrics s) (x @ ''.json'') = Some f" "text_of f = Json (PDict d)"
        "backup_name render x (version_of d) ts = Inr bn" "valid_name bn"
        "dir_lookup (versions (backup_step render x ts s)) bn
           = Some (f\<lparr>text_of := Json (PDict (AList.update ''status'' (PStr ''archive'') d))\<rparr>)"
      by blast
    from a(3) obtain v where "py_format render (version_of d) = Inr v"
      "bn = x @ ''.v'' @ v @ ''.'' @ ts @ ''.json''"
      by (auto simp: backup_name_def split: sum.splits)
    with a show ?thesis by blast
  qed
  have 3: "stdout (backup_step render x ts s)
              = stdout s @ [BackupCreated (x @ ''.v'' @ v @ ''.'' @ ts @ ''.json'')]"
    if "dir_lookup (rubrics s) (x @ ''.json'') = Some f \<and> readable f \<and> writable f
            \<and> text_of f = Json (PDict d)
            \<and> py_format render (version_of d) = Inr v
            \<and> (if versions s = None
               then valid_name (x @ ''.v'' @ v @ ''.'' @ ts @ ''.json'')
                    \<and> (\<exists>dr. rubrics s = Some dr \<and> creatable dr)
               else can_write (versions s) (x @ ''.v'' @ v @ ''.'' @ ts @ ''.json''))" for f d v
  proof -
    from that have f: "dir_lookup (rubrics s) (x @ ''.json'') = Some f" "readable f"
        "writable f" "text_of f = Json (PDict d)"
      and pf: "py_format render (version_of d) = Inr v"
      and w: "if versions s = None
              then valid_name (x @ ''.v'' @ v @ ''.'' @ ts @ ''.json'')
                   \<and> (\<exists>dr. rubrics s = Some dr \<and> creatable dr)
              else can_write (versions s) (x @ ''.v'' @ v @ ''.'' @ ts @ ''.json'')"
      by blast+
    from backup_succeeds [OF f nm [OF pf] w] show ?thesis .
  qed
  have 4: "stdout (backup_step render x ts s) = stdout s @ [WarnNoBackup]
            \<and> (\<forall>n. dir_lookup (versions (backup_step render x ts s)) n
                     = dir_lookup (versions s) n)"
    if "dir_lookup (rubrics s) (x @ ''.json'') = Some f \<and> readable f
            \<and> text_of f = Json (PDict d)
            \<and> py_format render (version_of d) = Inr v
            \<and> \<not> valid_name (x @ ''.v'' @ v @ ''.'' @ ts @ ''.json'')" for f d v
    using that nm [of d v]
      backup_refused [where f = f and d = d and s = s and x = x and render = render and ts = ts
        and bn = "x @ ''.v'' @ v @ ''.'' @ ts @ ''.json''"]
    by blast
  have 5: "save_rubric_to_file render r x True ts s =
          (case open_write (rubrics s) (x @ ''.json'') (Json r) of
             Inl e \<Rightarrow> (Inr (False, Some SaveError), backup_step render x ts s)
           | Inr written \<Rightarrow> (Inr (True, None), (backup_step render x ts s)\<lparr>rubrics := written\<rparr>))"
    if "path_exists (rubrics s) (x @ ''.json'')"
    using that save_result [OF mkdir_rubrics_exists [OF that], of render r x True ts]
    by (simp add: Let_def)
  show ?thesis using 1 2 3 4 5 by blast
qed

theorem backup_step_effect_witness:
  "path_exists (rubrics demo_store) (''demo'' @ ''.json'')
   \<and> valid_name ''demo.v1.0.20250101_120000.json''
   \<and> stdout (backup_step no_render ''demo'' ''20250101_120000'' demo_store)
       = [BackupCreated ''demo.v1.0.20250101_120000.json'']
   \<and> dir_lookup (versions (backup_step no_render ''demo'' ''20250101_120000'' demo_store))
         ''demo.v1.0.20250101_120000.json''
       = Some (new_file (Json (PDict [(''name'', PStr ''Demo''), (''version'', PStr ''1.0''),
                                      (''status'', PStr ''archive'')])))
   \<and> dir_lookup (rubrics (backup_step no_render ''demo'' ''20250101_120000'' demo_store))
         ''demo.json''
       = Some (new_file (Json (PDict demo_v1)))
   \<and> fst (save_rubric_to_file no_render (PDict demo_v2) ''demo'' True ''20250101_120000''
            demo_store) = Inr (True, None)
   \<and> \<not> valid_name ''demo.v1/0.20250101_120000.json''
   \<and> stdout (backup_step no_render ''demo'' ''20250101_120000'' slash_store) = [WarnNoBackup]
   \<and> dir_lookup (versions (backup_step no_render ''demo'' ''20250101_120000'' slash_store))
         ''demo.v1/0.20250101_120000.json'' = None"
proof -
  let ?s = "backup_step no_render ''demo'' ''20250101_120000'' demo_store"
  let ?f = "new_file (Json (PDict demo_v1))"
  let ?bn = "''demo'' @ ''.v'' @ ''1.0'' @ ''.'' @ ''20250101_120000'' @ ''.json''"
  have bn: "?bn = ''demo.v1.0.20250101_120000.json''" by simp
  have h0: "path_exists (rubrics demo_store) (''demo'' @ ''.json'')"
    by (simp add: path_exists_def dir_lookup_def demo_store_def)
  have h1: "dir_lookup (rubrics demo_store) (''demo'' @ ''.json'') = Some ?f \<and> readable ?f
      \<and> writable ?f \<and> text_of ?f = Json (PDict demo_v1)
      \<and> py_format no_render (version_of demo_v1) = Inr ''1.0''
      \<and> (if versions demo_store = None
          then valid_name ?bn \<and> (\<exists>dr. rubrics demo_store = Some dr \<and> creatable dr)
          else can_write (versions demo_store) ?bn)"
    by (simp add: dir_lookup_def demo_store_def new_file_def version_of_def demo_v1_def
        valid_names)
  note t = backup_step_effect [where render = no_render and x = "''demo''"
      and ts = "''20250101_120000''" and s = demo_store and r = "PDict demo_v2"]
  from t h1 have p: "stdout ?s = stdout demo_store @ [BackupCreated ?bn]"
    by blast
  then have p': "stdout ?s = stdout demo_store @ [BackupCreated ''demo.v1.0.20250101_120000.json'']"
    by (simp only: bn)
  from t p' obtain d f v where
    d: "dir_lookup (rubrics demo_store) (''demo'' @ ''.json'') = Some f" "text_of f = Json (PDict d)"
      "dir_lookup (versions ?s) ''demo.v1.0.20250101_120000.json''
         = Some (f\<lparr>text_of := Json (PDict (AList.update ''status'' (PStr ''archive'') d))\<rparr>)"
    by blast
  from d(1,2) h1 have fd: "f = ?f" "d = demo_v1" by simp_all
  have v: "dir_lookup (versions ?s) ''demo.v1.0.20250101_120000.json''
       = Some (new_file (Json (PDict [(''name'', PStr ''Demo''), (''version'', PStr ''1.0''),
                                      (''status'', PStr ''archive'')])))"
    using d(3) unfolding fd by (simp add: new_file_def demo_v1_def)
  from t have r: "rubrics ?s = rubrics demo_store" by blast
  have l: "dir_lookup (rubrics ?s) ''demo.json'' = Some ?f"
    unfolding r using h1 by simp
  from t h0 have sv: "save_rubric_to_file no_render (PDict demo_v2) ''demo'' True ''20250101_120000''
            demo_store =
          (case open_write (rubrics demo_store) (''demo'' @ ''.json'') (Json (PDict demo_v2)) of
             Inl e \<Rightarrow> (Inr (False, Some SaveError), ?s)
           | Inr written \<Rightarrow> (Inr (True, None), ?s\<lparr>rubrics := written\<rparr>))"
    by blast
  have sv': "fst (save_rubric_to_file no_render (PDict demo_v2) ''demo'' True ''20250101_120000''
            demo_store) = Inr (True, None)"
    unfolding sv by (simp add: open_write_def demo_store_def new_file_def valid_names)
  let ?t = "backup_step no_render ''demo'' ''20250101_120000'' slash_store"
  let ?g = "new_file (Json (PDict slash_v1))"
  let ?sn = "''demo'' @ ''.v'' @ ''1/0'' @ ''.'' @ ''20250101_120000'' @ ''.json''"
  have sn: "?sn = ''demo.v1/0.20250101_120000.json''" by simp
  have g1: "dir_lookup (rubrics slash_store) (''demo'' @ ''.json'') = Some ?g \<and> readable ?g
      \<and> text_of ?g = Json (PDict slash_v1)
      \<and> py_format no_render (version_of slash_v1) = Inr ''1/0''
      \<and> \<not> valid_name ?sn"
    by (simp add: dir_lookup_def slash_store_def new_file_def version_of_def slash_v1_def
        valid_names)
  note u = backup_step_effect [where render = no_render and x = "''demo''"
      and ts = "''20250101_120000''" and s = slash_store and r = "PDict demo_v2"]
  from u g1 have q: "stdout ?t = stdout slash_store @ [WarnNoBackup]
      \<and> (\<forall>n. dir_lookup (versions ?t) n = dir_lookup (versions slash_store) n)"
    by blast
  then have q1: "stdout ?t = [WarnNoBackup]"
    and q2: "dir_lookup (versions ?t) ''demo.v1/0.20250101_120000.json'' = None"
    by (simp_all add: slash_store_def dir_lookup_def)
  show ?thesis using h0 p' v l sv' q1 q2 by (simp add: demo_store_def valid_names)
qed



lemma validate_accepts_dict:
  assumes "validate_rubric v = Inr (True, None)"
  shows "\<exists>d. v = PDict d"
proof -
  from assms have "validate_steps v = Ok ()" by (simp add: validate_rubric_Ok)
  from validate_steps_Ok [OF this] obtain k x where "py_getitem v k = Inr x"
    using check_new_format_Ok [of v] check_old_format_Ok [of v] by blast
  then show ?thesis by (cases v) auto
qed

lemma validate_valid_None: "validate_rubric v = Inr (True, m) \<Longrightarrow> m = None"
  by (auto simp: validate_rubric_def split: step.splits)

lemma py_eq_str: "py_eq v (PStr s) \<longleftrightarrow> v = PStr s"
  by (cases v) (auto simp: py_eq_def)

lemma list_entry_iff: "list_entry d fname \<noteq> None \<longleftrightarrow> listed d fname"
proof (cases "json_load d fname")
  case (Inl e)
  then show ?thesis by (simp add: list_entry_def listed_def)
next
  case (Inr v)
  show ?thesis
  proof (cases "validate_rubric v = Inr (True, None)")
    case True
    from validate_accepts_dict [OF True] obtain r where "v = PDict r" by blast
    with Inr True show ?thesis
      by (simp add: list_entry_def listed_def py_eq_str)
  next
    case False
    then have "\<And>m. validate_rubric v \<noteq> Inr (True, m)"
      using validate_valid_None by blast
    with Inr False show ?thesis
      by (auto simp: list_entry_def listed_def split: sum.splits)
  qed
qed

lemma list_entry_filename: "list_entry d fname = Some e \<Longrightarrow> entry_filename e = stem fname"
  by (auto simp: list_entry_def split: sum.splits if_splits)

lemma glob_names: "fname \<in> set (glob d p) \<Longrightarrow> dir_lookup d fname \<noteq> None \<and> glob_match p fname"
proof -
  assume a: "fname \<in> set (glob d p)"
  then obtain dr where d: "d = Some dr" and m: "glob_match p fname"
    and f: "fname \<in> fst ` set (entries dr)"
    by (auto simp: glob_def split: option.splits)
  from f have "map_of (entries dr) fname \<noteq> None" by (simp add: map_of_eq_None_iff)
  with d m show ?thesis by (simp add: dir_lookup_def)
qed

lemma map_filter_listed:
  "List.map_filter (list_entry d) fs = List.map_filter (list_entry d) (filter (listed d) fs)"
  by (induction fs) (auto simp: List.map_filter_simps list_entry_iff [symmetric] split: option.splits)

text \<open>
  Claim C7.  For every store, with or without a \<open>rubrics\<close> directory, the list that
  \<open>list_available_rubrics\<close> returns has an entry with the filename \<open>sample-rubric\<close>.
  Every entry is the built-in sample entry or the entry of a \<open>*.json\<close> file of the
  directory that loads, passes \<open>validate_rubric\<close> and has the status \<open>current\<close>, under
  the stem of its name.  A file that does not load, is not valid or is not current gives
  no entry: the list is the built-in entry, if it is needed, followed by the entries of
  exactly those files, in the order of their names.
\<close>

theorem list_available_rubrics_spec:
  "(\<exists>e \<in> set (list_available_rubrics s). entry_filename e = ''sample-rubric'')
   \<and> (\<forall>e \<in> set (list_available_rubrics s).
         e = sample_entry
         \<or> (\<exists>fname. dir_lookup (rubrics s) fname \<noteq> None \<and> glob_match ''*.json'' fname
               \<and> listed (rubrics s) fname \<and> list_entry (rubrics s) fname = Some e
               \<and> entry_filename e = stem fname))
   \<and> (\<forall>fname. \<not> listed (rubrics s) fname \<longrightarrow> list_entry (rubrics s) fname = None)
   \<and> (\<exists>builtin. (builtin = [] \<or> builtin = [sample_entry])
         \<and> list_available_rubrics s
            = builtin @ List.map_filter (list_entry (rubrics s))
                          (filter (listed (rubrics s)) (sort (glob (rubrics s) ''*.json''))))"
proof -
  let ?d = "rubrics s"
  let ?files = "sort (glob ?d ''*.json'')"
  let ?available = "List.map_filter (list_entry ?d) ?files"
  have L: "list_available_rubrics s =
      (if \<not> list_ex (\<lambda>r. entry_filename r = ''sample-rubric'') ?available
       then sample_entry # ?available else ?available)"
    by (simp add: list_available_rubrics_def Let_def)
  have 1: "\<exists>e \<in> set (list_available_rubrics s). entry_filename e = ''sample-rubric''"
    unfolding L by (auto simp: list_ex_iff sample_entry_def)
  have av: "\<exists>fname. dir_lookup ?d fname \<noteq> None \<and> glob_match ''*.json'' fname
               \<and> listed ?d fname \<and> list_entry ?d fname = Some e
               \<and> entry_filename e = stem fname"
    if "e \<in> set ?available" for e
  proof -
    from that obtain fname where f: "fname \<in> set (glob ?d ''*.json'')"
      and e: "list_entry ?d fname = Some e"
      by (auto simp: List.map_filter_def)
    from e have "listed ?d fname" using list_entry_iff [of ?d fname] by simp
    with glob_names [OF f] e list_entry_filename [OF e] show ?thesis by blast
  qed
  have 2: "\<forall>e \<in> set (list_available_rubrics s).
         e = sample_entry
         \<or> (\<exists>fname. dir_lookup ?d fname \<noteq> None \<and> glob_match ''*.json'' fname
               \<and> listed ?d fname \<and> list_entry ?d fname = Some e
               \<and> entry_filename e = stem fname)"
    unfolding L using av by (auto split: if_splits)
  have 3: "\<forall>fname. \<not> listed ?d fname \<longrightarrow> list_entry ?d fname = None"
    using list_entry_iff by blast
  have 4: "\<exists>builtin. (builtin = [] \<or> builtin = [sample_entry])
         \<and> list_available_rubrics s
            = builtin @ List.map_filter (list_entry ?d) (filter (listed ?d) ?files)"
    unfolding L map_filter_listed [of ?d ?files, symmetric]
    by (cases "list_ex (\<lambda>r. entry_filename r = ''sample-rubric'') ?available") auto
  show ?thesis using 1 2 3 4 by blast
qed

lemma both_keys_valid: "validate_rubric (PDict ((''status'', v) # both_keys_rubric)) = Inr (True, None)"
  by (simp add: both_keys_rubric_def example_defs validate_defs float_vals)

lemma common_keys_invalid: "validate_rubric (PDict ((''status'', v) # common_keys)) = Inr (False, Some NoFormat)"
  by (simp add: example_defs validate_defs)

lemma stem_sales: "stem ''sales.json'' = ''sales''"
  by (simp add: stem_def)

lemma glob_mixed: "sort (glob (rubrics mixed_store) ''*.json'') = [''draft.json'', ''notes.json'', ''old.json'', ''sales.json'']"
  by (simp add: glob_def mixed_store_def)

lemma both_keys_lookup:
  "map_of both_keys_rubric ''name'' = None" "map_of both_keys_rubric ''description'' = None"
  by (simp_all add: both_keys_rubric_def common_keys_def)

lemma mixed_listing:
  "list_available_rubrics mixed_store = [sample_entry, sales_entry]"
  unfolding list_available_rubrics_def glob_mixed
  by (simp add: List.map_filter_simps list_entry_def json_load_def open_read_def dir_lookup_def
     mixed_store_def new_file_def both_keys_valid common_keys_invalid stem_sales py_eq_def
     sales_entry_def sample_entry_def both_keys_lookup)

theorem list_available_rubrics_spec_witness:
  "list_available_rubrics mixed_store = [sample_entry, sales_entry]
   \<and> sales_entry \<noteq> sample_entry
   \<and> (\<exists>fname. dir_lookup (rubrics mixed_store) fname \<noteq> None \<and> glob_match ''*.json'' fname
          \<and> listed (rubrics mixed_store) fname
          \<and> list_entry (rubrics mixed_store) fname = Some sales_entry
          \<and> entry_filename sales_entry = stem fname)
   \<and> \<not> listed (rubrics mixed_store) ''old.json''
   \<and> list_entry (rubrics mixed_store) ''old.json'' = None
   \<and> \<not> listed (rubrics mixed_store) ''draft.json''
   \<and> list_entry (rubrics mixed_store) ''draft.json'' = None
   \<and> \<not> listed (rubrics mixed_store) ''notes.json''
   \<and> list_entry (rubrics mixed_store) ''notes.json'' = None"
proof -
  note t = list_available_rubrics_spec [of mixed_store]
  have l: "list_available_rubrics mixed_store = [sample_entry, sales_entry]"
    by (rule mixed_listing)
  have n: "sales_entry \<noteq> sample_entry"
    by (simp add: sales_entry_def sample_entry_def)
  have m: "sales_entry \<in> set (list_available_rubrics mixed_store)"
    by (simp add: l)
  from t m n have e: "\<exists>fname. dir_lookup (rubrics mixed_store) fname \<noteq> None
          \<and> glob_match ''*.json'' fname
          \<and> listed (rubrics mixed_store) fname
          \<and> list_entry (rubrics mixed_store) fname = Some sales_entry
          \<and> entry_filename sales_entry = stem fname"
    by blast
  have h: "\<not> listed (rubrics mixed_store) ''old.json''"
    "\<not> listed (rubrics mixed_store) ''draft.json''"
    "\<not> listed (rubrics mixed_store) ''notes.json''"
    by (simp_all add: listed_def json_load_def open_read_def dir_lookup_def mixed_store_def
        new_file_def both_keys_valid common_keys_invalid)
  from t h have x: "list_entry (rubrics mixed_store) ''old.json'' = None"
    "list_entry (rubrics mixed_store) ''draft.json'' = None"
    "list_entry (rubrics mixed_store) ''notes.json'' = None"
    by blast+
  show ?thesis using l n e h x by blast
qed

lemma glob_star_skip: "glob_match q t \<Longrightarrow> glob_match (CHR ''*'' # q) (a @ t)"
  by (induction a) auto

lemma glob_literal_prefix:
  assumes "CHR ''['' \<notin> set p" and "glob_match q t"
  shows "glob_match (p @ q) (p @ t)"
  using assms
proof (induction p)
  case Nil
  then show ?case by simp
next
  case (Cons c p)
  then have ih: "glob_match (p @ q) (p @ t)" by simp
  show ?case
  proof (cases "c = CHR ''*''")
    case True
    then show ?thesis using ih by simp
  next
    case False
    from Cons.prems(1) have "c \<noteq> CHR ''[''" by auto
    with False ih show ?thesis by simp
  qed
qed

lemma glob_json_suffix: "glob_match ''.*.json'' (''.'' @ ts @ ''.json'')"
proof -
  have "glob_match ''.json'' ''.json''" by simp
  from glob_star_skip [OF this, of ts] show ?thesis by simp
qed

lemma backup_found:
  assumes "CHR ''['' \<notin> set x" and "CHR ''['' \<notin> set v"
  shows "glob_match (x @ ''.v'' @ v @ ''.*.json'') (x @ ''.v'' @ v @ ''.'' @ ts @ ''.json'')"
proof -
  have "CHR ''['' \<notin> set (x @ ''.v'' @ v)" using assms by simp
  from glob_literal_prefix [OF this glob_json_suffix [of ts]] show ?thesis by simp
qed

lemma no_double_star:
  assumes "CHR ''*'' \<notin> set a"
  shows "\<not> contains_str ''**'' (a @ ''.*.json'')"
  using assms by (induction a) auto

text \<open>
  With valid file names and no bracket and no star in the file name or in the version,
  the sequence of C6 does what the claim says: saved into the empty store, backed up by
  the second save and restored by its version, the first rubric is the current one
  again, its \<open>status\<close> set to \<open>current\<close>, and the restore leaves the \<open>versions\<close>
  directory as it was.
\<close>

lemma restore_after_backup:
  assumes x: "valid_name (x @ ''.json'')" "CHR ''['' \<notin> set x" "CHR ''*'' \<notin> set x"
    and v: "map_of d1 ''version'' = Some ver" "py_format render ver = Inr v"
      "CHR ''['' \<notin> set v" "CHR ''*'' \<notin> set v"
    and b: "valid_name (x @ ''.v'' @ v @ ''.'' @ t2 @ ''.json'')"
  shows "case save_rubric_to_file render (PDict d1) x cb t1 empty_store of (first, s1) \<Rightarrow>
         case save_rubric_to_file render r2 x True t2 s1 of (second, s2) \<Rightarrow>
         case restore_rubric_version x v s2 of (third, s3) \<Rightarrow>
           first = Inr (True, None) \<and> second = Inr (True, None) \<and> third = Inr (True, None)
           \<and> json_load (rubrics s3) (x @ ''.json'')
               = Inr (PDict (AList.update ''status'' (PStr ''current'') d1))
           \<and> versions s3 = versions s2"
proof -
  have star: "\<not> contains_str ''**'' (x @ ''.v'' @ v @ ''.*.json'')"
    using no_double_star [of "x @ ''.v'' @ v"] x(3) v(4) by simp
  have nn: "\<not> has_nul (x @ ''.json'')" "\<not> has_nul (x @ ''.v'' @ v @ ''.'' @ t2 @ ''.json'')"
    using x(1) b by (simp_all only: valid_name_no_nul not_False_eq_True)
  show ?thesis
    using backup_found [OF x(2) v(3), of t2] v(1,2) x(1) b star nn
    by (simp add: store_defs empty_store_def glob_def update_conv')
qed

text \<open>
  Claim C6 does not hold of the code when the version has a bracket in it.  The first
  rubric, of version \<open>[0]\<close>, is saved into the empty store; the second save backs it up
  as \<open>demo.v[0].20250102_120000.json\<close>, archived; but \<open>restore_rubric_version\<close> globs
  for \<open>demo.v[0].*.json\<close>, where \<open>[0]\<close> is a character class that matches \<open>0\<close> and not
  \<open>[0]\<close>: it finds no backup, returns the error, and the current file still holds the
  second rubric.
\<close>

theorem restore_misses_bracket_version:
  "(case save_rubric_to_file no_render (PDict bracket_v1) ''demo'' True ''20250101_120000''
           empty_store of (first, s1) \<Rightarrow>
    case save_rubric_to_file no_render (PDict demo_v2) ''demo'' True ''20250102_120000'' s1 of
           (second, s2) \<Rightarrow>
    case restore_rubric_version ''demo'' ''[0]'' s2 of (third, s3) \<Rightarrow>
      first = Inr (True, None) \<and> second = Inr (True, None)
      \<and> json_load (versions s2) ''demo.v[0].20250102_120000.json''
          = Inr (PDict [(''name'', PStr ''Demo''), (''version'', PStr ''[0]''),
                        (''status'', PStr ''archive'')])
      \<and> third = Inr (False, Some (NoBackupFound ''[0]''))
      \<and> json_load (rubrics s3) ''demo.json'' = Inr (PDict demo_v2))"
  by (simp add: store_defs store_examples bracket_v1_def no_render_def glob_def class_end_def
      class_accepts_def)

section \<open>Properties of \<open>increment_version\<close>\<close>

lemma split_on_nonempty: "split_on sep s \<noteq> []"
  by (induction s) (auto split: list.splits)

lemma split_on_no_sep: "sep \<notin> set s \<Longrightarrow> split_on sep s = [s]"
  by (induction s) auto

lemma split_on_one_sep: "sep \<notin> set a \<Longrightarrow> sep \<notin> set b \<Longrightarrow> split_on sep (a @ sep # b) = [a, b]"
  by (induction a) (auto simp: split_on_no_sep)

lemma py_int_str_raises: "py_int_str s = Inl e \<Longrightarrow> e = ValueError"
  by (auto simp: py_int_str_def Let_def split: option.splits prod.splits if_splits)

lemma py_str_int_raises: "py_str_int n = Inl e \<Longrightarrow> e = ValueError"
  by (auto simp: py_str_int_def Let_def split: if_splits)

declare digits_of_nat.simps [simp del]

lemma increment_version_total: "\<exists>r. increment_version s = Inr r"
  by (auto simp: increment_version_def increment_version_body_def Let_def
      split: sum.splits dest: py_int_str_raises py_str_int_raises)

lemma increment_version_no_minor:
  assumes "CHR ''.'' \<notin> set s"
  shows "increment_version s = Inr (s @ ''.1'')"
  using split_on_no_sep [OF assms]
  by (simp add: increment_version_def increment_version_body_def)

lemma increment_version_bad_minor:
  assumes "2 \<le> length (split_on CHR ''.'' s)"
    and "py_int_str (split_on CHR ''.'' s ! 1) = Inl e"
  shows "increment_version s = Inr (s @ ''.1'')"
  using assms py_int_str_raises [OF assms(2)]
  by (simp add: increment_version_def increment_version_body_def)

lemma filter_dropWhile_other:
  "(\<And>x. Q x \<Longrightarrow> \<not> P x) \<Longrightarrow> filter P (dropWhile Q xs) = filter P xs"
  by (induction xs) auto

lemma space_not_digit: "is_space c \<Longrightarrow> \<not> is_digit c"
  by (auto simp: is_space_def is_digit_def)

lemma filter_digit_strip: "filter is_digit (strip s) = filter is_digit s"
proof -
  have "filter is_digit (strip s) = rev (filter is_digit (dropWhile is_space (rev (dropWhile is_space s))))"
    by (simp add: strip_def rev_filter)
  also have "\<dots> = rev (filter is_digit (rev (dropWhile is_space s)))"
    by (simp add: filter_dropWhile_other space_not_digit)
  also have "\<dots> = filter is_digit (dropWhile is_space s)"
    by (simp add: rev_filter)
  also have "\<dots> = filter is_digit s"
    by (simp add: filter_dropWhile_other space_not_digit)
  finally show ?thesis .
qed

lemma py_int_str_too_long:
  assumes "max_str_digits < length (filter is_digit s)"
  shows "py_int_str s = Inl ValueError"
proof -
  have sign: "filter is_digit (snd (case t of
                           c # r \<Rightarrow> if c = CHR ''-'' then (True, r)
                                   else if c = CHR ''+'' then (False, r) else (False, t)
                         | [] \<Rightarrow> (False, t))) = filter is_digit t" for t
    by (cases t) (auto simp: is_digit_def)
  show ?thesis
    using assms sign [of "strip s"]
    by (auto simp: py_int_str_def Let_def filter_digit_strip split: option.splits prod.splits)
qed

lemma span_digits_all:
  "span_digits s = (ds, []) \<Longrightarrow> c \<in> set s \<Longrightarrow> is_digit c \<or> c = CHR ''_''"
  by (induction s arbitrary: ds rule: span_digits.induct)
     (auto split: if_splits prod.splits list.splits)

lemma dropWhile_keeps: "c \<in> set xs \<Longrightarrow> \<not> Q c \<Longrightarrow> c \<in> set (dropWhile Q xs)"
  by (induction xs) auto

lemma strip_keeps: "c \<in> set s \<Longrightarrow> \<not> is_space c \<Longrightarrow> c \<in> set (strip s)"
  by (simp add: strip_def dropWhile_keeps)

lemma py_int_str_foreign:
  assumes "c \<in> set s" "\<not> is_digit c" "\<not> is_space c"
    "c \<noteq> CHR ''_''" "c \<noteq> CHR ''+''" "c \<noteq> CHR ''-''"
  shows "py_int_str s = Inl ValueError"
proof -
  from assms have m: "c \<in> set (strip s)" by (simp add: strip_keeps)
  define body where "body = snd (case strip s of
                           c # r \<Rightarrow> if c = CHR ''-'' then (True, r)
                                   else if c = CHR ''+'' then (False, r) else (False, strip s)
                         | [] \<Rightarrow> (False, strip s))"
  have b: "c \<in> set body"
    using m assms(5,6) unfolding body_def by (cases "strip s") auto
  have "digitpart body = None"
  proof (rule ccontr)
    assume "digitpart body \<noteq> None"
    then obtain ds where "span_digits body = (ds, [])"
      by (auto simp: digitpart_def split: prod.splits if_splits)
    from span_digits_all [OF this b] assms(2,4) show False by simp
  qed
  then show ?thesis
    unfolding py_int_str_def Let_def body_def by (auto split: prod.splits)
qed

lemma strip_no_space:
  assumes "\<not> is_space c"
  shows "strip (replicate (Suc n) c) = replicate (Suc n) c"
proof -
  have d: "dropWhile is_space (replicate (Suc n) c) = replicate (Suc n) c"
    using assms by simp
  show ?thesis
    unfolding strip_def d rev_replicate d by (simp only: rev_replicate)
qed

lemma span_digits_replicate:
  assumes "is_digit c"
  shows "span_digits (replicate (Suc n) c) = (replicate (Suc n) c, [])"
  using assms by (induction n) simp_all

lemma foldl_digits_replicate:
  "foldl (\<lambda>acc c. acc * 10 + digit_val c) a (replicate n CHR ''9'') = (a + 1) * 10 ^ n - 1"
  by (induction n arbitrary: a) (simp_all add: digit_val_def algebra_simps)

lemma int_of_nines: "int_of_digits (replicate n CHR ''9'') = 10 ^ n - 1"
  by (simp add: int_of_digits_def foldl_digits_replicate)

lemma py_int_str_nines:
  assumes "n < max_str_digits"
  shows "py_int_str (replicate (Suc n) CHR ''9'') = Inr (10 ^ Suc n - 1)"
proof -
  have sp: "\<not> is_space CHR ''9''" by (simp add: is_space_def)
  have dg: "is_digit CHR ''9''" by (simp add: is_digit_def)
  have dp: "digitpart (replicate (Suc n) CHR ''9'') = Some (10 ^ Suc n - 1)"
    unfolding digitpart_def span_digits_replicate [OF dg]
    by (simp add: int_of_nines del: replicate_Suc power_Suc)
  have fl: "filter is_digit (replicate (Suc n) CHR ''9'') = replicate (Suc n) CHR ''9''"
    using dg by (simp only: filter_replicate if_True)
  have hd: "(case replicate (Suc n) CHR ''9'' of
               c # r \<Rightarrow> if c = CHR ''-'' then (True, r)
                       else if c = CHR ''+'' then (False, r) else (False, replicate (Suc n) CHR ''9'')
             | [] \<Rightarrow> (False, replicate (Suc n) CHR ''9'')) = (False, replicate (Suc n) CHR ''9'')"
    by simp
  show ?thesis
    unfolding py_int_str_def strip_no_space [OF sp] Let_def hd prod.case dp option.case fl
    using assms by simp
qed

lemma length_digits_pow: "length (digits_of_nat (10 ^ k)) = Suc k"
proof (induction k)
  case 0
  show ?case by (simp add: digits_of_nat.simps)
next
  case (Suc k)
  have "(10::nat) ^ Suc k \<ge> 10" by (simp add: self_le_power)
  then have "digits_of_nat (10 ^ Suc k)
      = digits_of_nat (10 ^ Suc k div 10) @ [digit_char (10 ^ Suc k mod 10)]"
    by (subst digits_of_nat.simps) simp
  then show ?case using Suc by simp
qed

lemma py_str_int_pow:
  assumes "max_str_digits \<le> k"
  shows "py_str_int (10 ^ k) = Inl ValueError"
proof -
  have "length (digits_of_nat (nat \<bar>10 ^ k :: int\<bar>)) = Suc k"
    by (simp add: nat_power_eq length_digits_pow)
  with assms show ?thesis
    unfolding py_str_int_def Let_def by (simp only:) simp
qed

lemma increment_version_nines:
  assumes "CHR ''.'' \<notin> set major"
  shows "increment_version (major @ ''.'' @ replicate max_str_digits CHR ''9'')
     = Inr (major @ ''.'' @ replicate max_str_digits CHR ''9'' @ ''.1'')"
proof -
  obtain n where n: "max_str_digits = Suc n" by (cases max_str_digits) (simp_all add: max_str_digits_def)
  have nd: "CHR ''.'' \<notin> set (replicate max_str_digits CHR ''9'')" by simp
  have sp: "split_on CHR ''.'' (major @ ''.'' @ replicate max_str_digits CHR ''9'')
      = [major, replicate max_str_digits CHR ''9'']"
    using split_on_one_sep [OF assms nd] by simp
  have pi: "py_int_str (replicate max_str_digits CHR ''9'') = Inr (10 ^ max_str_digits - 1)"
    unfolding n by (rule py_int_str_nines) (simp add: n)
  have ps: "py_str_int (10 ^ max_str_digits) = Inl ValueError"
    by (rule py_str_int_pow) simp
  show ?thesis
    unfolding increment_version_def increment_version_body_def sp Let_def
    by (simp add: pi ps)
qed

text \<open>
  Claim C4.  \<open>increment_version\<close> maps \<open>"1.0"\<close> to \<open>"1.1"\<close> and \<open>"2.9"\<close> to
  \<open>"2.10"\<close>; on a string with no \<open>.\<close> (so no minor segment, such as \<open>"v"\<close>), and on a
  string whose second \<open>.\<close>-separated segment \<open>int\<close> rejects, it returns the string with
  \<open>".1"\<close> appended; and for every string it returns a string: no exception leaves it.
  \<open>int\<close> rejects the segment in particular when it has a character that is neither a
  digit, white space, a sign nor an underscore, and when it has more than
  \<open>max_str_digits\<close> digits; the separator \<open>0x1C\<close> is not white space for \<open>int\<close>.  When
  the segment is \<open>max_str_digits\<close> nines, it is \<open>str\<close> that rejects the incremented
  number, and again \<open>".1"\<close> is appended.
\<close>

theorem increment_version_spec:
  "increment_version ''1.0'' = Inr ''1.1''
   \<and> increment_version ''2.9'' = Inr ''2.10''
   \<and> increment_version ''v'' = Inr ''v.1''
   \<and> (\<forall>s. CHR ''.'' \<notin> set s \<longrightarrow> increment_version s = Inr (s @ ''.1''))
   \<and> (\<forall>s e. 2 \<le> length (split_on CHR ''.'' s)
              \<and> py_int_str (split_on CHR ''.'' s ! 1) = Inl e
          \<longrightarrow> increment_version s = Inr (s @ ''.1''))
   \<and> (\<forall>s c. 2 \<le> length (split_on CHR ''.'' s)
              \<and> c \<in> set (split_on CHR ''.'' s ! 1)
              \<and> \<not> is_digit c \<and> \<not> is_space c \<and> c \<notin> set ''_+-''
          \<longrightarrow> increment_version s = Inr (s @ ''.1''))
   \<and> (\<forall>s. 2 \<le> length (split_on CHR ''.'' s)
            \<and> max_str_digits < length (filter is_digit (split_on CHR ''.'' s ! 1))
          \<longrightarrow> increment_version s = Inr (s @ ''.1''))
   \<and> increment_version (''1.'' @ [CHR 0x1C] @ ''5'') = Inr (''1.'' @ [CHR 0x1C] @ ''5.1'')
   \<and> increment_version (''1.'' @ replicate max_str_digits CHR ''9'')
       = Inr (''1.'' @ replicate max_str_digits CHR ''9'' @ ''.1'')
   \<and> (\<forall>s. \<exists>r. increment_version s = Inr r)"
proof -
  have a: "increment_version ''1.0'' = Inr ''1.1''" by code_simp
  have b: "increment_version ''2.9'' = Inr ''2.10''" by code_simp
  have c: "increment_version ''v'' = Inr ''v.1''" by code_simp
  have d: "increment_version (''1.'' @ [CHR 0x1C] @ ''5'') = Inr (''1.'' @ [CHR 0x1C] @ ''5.1'')"
    by code_simp
  have e: "increment_version s = Inr (s @ ''.1'')"
    if "2 \<le> length (split_on CHR ''.'' s) \<and> c \<in> set (split_on CHR ''.'' s ! 1)
        \<and> \<not> is_digit c \<and> \<not> is_space c \<and> c \<notin> set ''_+-''" for s c
  proof -
    from that have "py_int_str (split_on CHR ''.'' s ! 1) = Inl ValueError"
      by (intro py_int_str_foreign [of c]) simp_all
    with that show ?thesis by (intro increment_version_bad_minor) simp_all
  qed
  have f: "increment_version s = Inr (s @ ''.1'')"
    if "2 \<le> length (split_on CHR ''.'' s)
        \<and> max_str_digits < length (filter is_digit (split_on CHR ''.'' s ! 1))" for s
  proof -
    from that have "py_int_str (split_on CHR ''.'' s ! 1) = Inl ValueError"
      by (intro py_int_str_too_long) simp
    with that show ?thesis by (intro increment_version_bad_minor) simp_all
  qed
  have g: "increment_version (''1.'' @ replicate max_str_digits CHR ''9'')
       = Inr (''1.'' @ replicate max_str_digits CHR ''9'' @ ''.1'')"
    using increment_version_nines [of "''1''"] by simp
  show ?thesis
    using a b c d e f g increment_version_no_minor increment_version_bad_minor
      increment_version_total
    by blast
qed

theorem increment_version_spec_witness:
  "CHR ''.'' \<notin> set ''rc'' \<and> increment_version ''rc'' = Inr ''rc.1''
   \<and> 2 \<le> length (split_on CHR ''.'' ''1.x'')
   \<and> py_int_str (split_on CHR ''.'' ''1.x'' ! 1) = Inl ValueError
   \<and> CHR ''x'' \<in> set (split_on CHR ''.'' ''1.x'' ! 1)
   \<and> \<not> is_digit CHR ''x'' \<and> \<not> is_space CHR ''x'' \<and> CHR ''x'' \<notin> set ''_+-''
   \<and> increment_version ''1.x'' = Inr ''1.x.1''
   \<and> 2 \<le> length (split_on CHR ''.'' (''1.'' @ replicate (Suc max_str_digits) CHR ''1''))
   \<and> max_str_digits
       < length (filter is_digit
           (split_on CHR ''.'' (''1.'' @ replicate (Suc max_str_digits) CHR ''1'') ! 1))
   \<and> increment_version (''1.'' @ replicate (Suc max_str_digits) CHR ''1'')
       = Inr ((''1.'' @ replicate (Suc max_str_digits) CHR ''1'') @ ''.1'')"
proof -
  let ?long = "''1.'' @ replicate (Suc max_str_digits) CHR ''1''"
  have h1: "CHR ''.'' \<notin> set ''rc''" by simp
  have h2: "2 \<le> length (split_on CHR ''.'' ''1.x'')" by simp
  have h3: "py_int_str (split_on CHR ''.'' ''1.x'' ! 1) = Inl ValueError" by code_simp
  have h4: "CHR ''x'' \<in> set (split_on CHR ''.'' ''1.x'' ! 1)" by simp
  have h5: "\<not> is_digit CHR ''x''" "\<not> is_space CHR ''x''" "CHR ''x'' \<notin> set ''_+-''"
    by (simp_all add: is_digit_def is_space_def)
  have sp: "split_on CHR ''.'' ?long = [''1'', replicate (Suc max_str_digits) CHR ''1'']"
    using split_on_one_sep [of "CHR ''.''" "''1''" "replicate (Suc max_str_digits) CHR ''1''"]
    by simp
  have h6: "2 \<le> length (split_on CHR ''.'' ?long)"
    unfolding sp by simp
  have h7: "max_str_digits < length (filter is_digit (split_on CHR ''.'' ?long ! 1))"
    unfolding sp by (simp add: is_digit_def)
  from increment_version_spec h1
  have r1: "increment_version ''rc'' = Inr ''rc.1''" by (metis append_Cons append_Nil)
  from increment_version_spec h2 h3
  have r2: "increment_version ''1.x'' = Inr ''1.x.1''" by (metis append_Cons append_Nil)
  from increment_version_spec h6 h7
  have r3: "increment_version ?long = Inr (?long @ ''.1'')" by blast
  show ?thesis using h1 h2 h3 h4 h5 h6 h7 r1 r2 r3 by blast
qed

end
